theory Spec2Isabelle
  imports Main
begin

section \<open>Data model (types.ts and the BranchState interface of App.tsx)\<close>

text \<open>
  \<open>GitStatus\<close> is the string union \<open>'unmodified' | 'modified' | 'new'\<close>.
  A \<open>FileItem\<close> is a record; its \<open>id\<close> field is called \<open>file_id\<close> here because \<open>id\<close> is
  the identity function of HOL. The constant \<open>type\<close> tag of the two interfaces is the
  constructor of \<open>FileSystemItem\<close>. Strings are lists of characters, a character standing
  for one code unit below 256.
\<close>

datatype GitStatus = Unmodified | Modified | New

record FileItem =
  file_id :: string
  name :: string
  language :: string
  content :: string
  gitStatus :: GitStatus

datatype FileSystemItem =
    File FileItem
  | Folder string string "FileSystemItem list"

text \<open>
  \<open>Partial<FileItem>\<close>: every field may be absent. The \<open>type\<close> field can only hold
  \<open>'file'\<close> again, so it is left out.
\<close>

record FileItem_Partial =
  id_upd :: "string option"
  name_upd :: "string option"
  language_upd :: "string option"
  content_upd :: "string option"
  gitStatus_upd :: "GitStatus option"

record Commit =
  commit_id :: string
  message :: string
  timestamp :: string

text \<open>
  \<open>fileSystem\<close> has the static type \<open>FolderItem\<close>; the casts \<open>as FolderItem\<close> are erased
  at run time, so the field holds whatever the tree helpers return. \<open>stagedFiles\<close> is a
  \<open>Set<string>\<close>; only membership, emptiness and equality of the set are observed below.
\<close>

record BranchState =
  fileSystem :: FileSystemItem
  stagedFiles :: "string set"
  commits :: "Commit list"

text \<open>
  The state of the \<open>App\<close> component that the version-control handlers read or write:
  the \<open>branchStates\<close> object, the \<open>currentBranch\<close> name and the cached \<open>activeFile\<close>.
  None of the handlers mutates an object, a \<open>Set\<close> or an array in place (each builds a new
  one with a spread, \<open>new Set(...)\<close> or \<open>map\<close>), so values stand for objects.
\<close>

record AppState =
  branchStates :: "string \<rightharpoonup> BranchState"
  currentBranch :: string
  activeFile :: "FileItem option"

datatype error = TypeError

section \<open>Recursive tree helpers\<close>

text \<open>The object spread \<open>{ ...item, ...updates }\<close>.\<close>

definition spread :: "FileItem \<Rightarrow> FileItem_Partial \<Rightarrow> FileItem" where
  "spread item updates =
     \<lparr> file_id = (case id_upd updates of Some v \<Rightarrow> v | None \<Rightarrow> file_id item),
       name = (case name_upd updates of Some v \<Rightarrow> v | None \<Rightarrow> name item),
       language = (case language_upd updates of Some v \<Rightarrow> v | None \<Rightarrow> language item),
       content = (case content_upd updates of Some v \<Rightarrow> v | None \<Rightarrow> content item),
       gitStatus = (case gitStatus_upd updates of Some v \<Rightarrow> v | None \<Rightarrow> gitStatus item) \<rparr>"

text \<open>
  \<open>findFileInTree\<close>; the \<open>for\<close> loop over the children, which returns at the first hit,
  is \<open>findFileInChildren\<close>.
\<close>

fun findFileInTree :: "FileSystemItem \<Rightarrow> string \<Rightarrow> FileItem option"
  and findFileInChildren :: "FileSystemItem list \<Rightarrow> string \<Rightarrow> FileItem option" where
  "findFileInTree (File item) fileId = (if file_id item = fileId then Some item else None)"
| "findFileInTree (Folder i n children) fileId = findFileInChildren children fileId"
| "findFileInChildren [] fileId = None"
| "findFileInChildren (child # rest) fileId =
     (case findFileInTree child fileId of
        Some found \<Rightarrow> Some found
      | None \<Rightarrow> findFileInChildren rest fileId)"

fun updateFileInTree :: "FileSystemItem \<Rightarrow> string \<Rightarrow> FileItem_Partial \<Rightarrow> FileSystemItem" where
  "updateFileInTree (File item) fileId updates =
     (if file_id item = fileId then File (spread item updates) else File item)"
| "updateFileInTree (Folder i n children) fileId updates =
     Folder i n (map (\<lambda>child. updateFileInTree child fileId updates) children)"

text \<open>\<open>findChangedFiles\<close> pushes onto the accumulator \<open>allFiles\<close>, which starts empty.\<close>

fun findChangedFiles :: "FileSystemItem \<Rightarrow> FileItem list \<Rightarrow> FileItem list" where
  "findChangedFiles (File item) allFiles =
     (if gitStatus item \<noteq> Unmodified then allFiles @ [item] else allFiles)"
| "findChangedFiles (Folder i n children) allFiles =
     fold (\<lambda>child acc. findChangedFiles child acc) children allFiles"

fun updateStatusesInTree :: "FileSystemItem \<Rightarrow> string set \<Rightarrow> GitStatus \<Rightarrow> FileSystemItem" where
  "updateStatusesInTree (File item) fileIds newStatus =
     (if file_id item \<in> fileIds then File (item\<lparr>gitStatus := newStatus\<rparr>) else File item)"
| "updateStatusesInTree (Folder i n children) fileIds newStatus =
     Folder i n (map (\<lambda>child. updateStatusesInTree child fileIds newStatus) children)"

section \<open>Run-time library used by the handlers\<close>

text \<open>The decimal rendering of \<open>Date.now()\<close> inside a template literal.\<close>

fun showNat :: "nat \<Rightarrow> string" where
  "showNat n =
     (if n < 10 then [''0123456789'' ! n]
      else showNat (n div 10) @ [''0123456789'' ! (n mod 10)])"

declare showNat.simps [simp del]

text \<open>
  \<open>String.prototype.trim\<close> on code units below 256: tab, line feed, vertical tab, form
  feed, carriage return, space and no-break space are removed from both ends.
\<close>

definition isWhiteSpace :: "char \<Rightarrow> bool" where
  "isWhiteSpace c = ((of_char c :: nat) \<in> {9, 10, 11, 12, 13, 32, 160})"

definition trim :: "string \<Rightarrow> string" where
  "trim s = rev (dropWhile isWhiteSpace (rev (dropWhile isWhiteSpace s)))"

text \<open>\<open>String.prototype.toLowerCase\<close> on code units below 256.\<close>

definition toLowerChar :: "char \<Rightarrow> char" where
  "toLowerChar c =
     (let n = (of_char c :: nat)
      in if (65 \<le> n \<and> n \<le> 90) \<or> (192 \<le> n \<and> n \<le> 222 \<and> n \<noteq> 215)
         then char_of (n + 32) else c)"

definition toLowerCase :: "string \<Rightarrow> string" where
  "toLowerCase s = map toLowerChar s"

text \<open>
  \<open>branchStates\<close> is a plain object, so the property read \<open>branchStates[key]\<close> also finds
  what \<open>Object.prototype\<close> defines. Every such value is a function or an object, hence
  truthy, and none of them has a \<open>fileSystem\<close> property.
\<close>

definition objectPrototypeProperties :: "string list" where
  "objectPrototypeProperties =
     [''constructor'', ''hasOwnProperty'', ''isPrototypeOf'', ''propertyIsEnumerable'',
      ''toLocaleString'', ''toString'', ''valueOf'', ''__proto__'',
      ''__defineGetter__'', ''__defineSetter__'', ''__lookupGetter__'', ''__lookupSetter__'']"

definition propertyIsTruthy :: "(string \<rightharpoonup> BranchState) \<Rightarrow> string \<Rightarrow> bool" where
  "propertyIsTruthy obj key = (obj key \<noteq> None \<or> key \<in> set objectPrototypeProperties)"

section \<open>Handlers of the App component\<close>

text \<open>
  A handler takes the state of the last render and returns the state of the next one.
  \<open>Inl TypeError\<close> is the exception of a property read on \<open>undefined\<close>. A handler that
  may call \<open>alert\<close> also returns the text it showed. Handlers run one at a time, between
  two renders, so \<open>currentBranchState\<close> (read at render time) and \<open>prev[currentBranch]\<close>
  (read by the updater) are the same snapshot. The component cannot render a state whose
  \<open>currentBranch\<close> is not a key of \<open>branchStates\<close> (its body reads
  \<open>currentBranchState.fileSystem\<close>), which is \<open>Inl TypeError\<close> too.
\<close>

definition setCurrentBranchState ::
  "(BranchState \<Rightarrow> BranchState) \<Rightarrow> AppState \<Rightarrow> error + AppState" where
  "setCurrentBranchState updater s =
     (case branchStates s (currentBranch s) of
        None \<Rightarrow> Inl TypeError
      | Some prev \<Rightarrow>
          Inr (s\<lparr>branchStates := (branchStates s)(currentBranch s \<mapsto> updater prev)\<rparr>))"

definition handleStage :: "string \<Rightarrow> AppState \<Rightarrow> error + AppState" where
  "handleStage fileId s =
     setCurrentBranchState (\<lambda>prev. prev\<lparr>stagedFiles := insert fileId (stagedFiles prev)\<rparr>) s"

definition handleUnstage :: "string \<Rightarrow> AppState \<Rightarrow> error + AppState" where
  "handleUnstage fileId s =
     setCurrentBranchState (\<lambda>prev. prev\<lparr>stagedFiles := stagedFiles prev - {fileId}\<rparr>) s"

definition handleStageAll :: "AppState \<Rightarrow> error + AppState" where
  "handleStageAll s =
     (case branchStates s (currentBranch s) of
        None \<Rightarrow> Inl TypeError
      | Some currentBranchState \<Rightarrow>
          (let allChangedIds = map file_id (findChangedFiles (fileSystem currentBranchState) [])
           in setCurrentBranchState (\<lambda>prev. prev\<lparr>stagedFiles := set allChangedIds\<rparr>) s))"

text \<open>
  \<open>handleCommit\<close>: \<open>now\<close> is \<open>Date.now()\<close> and \<open>isoString\<close> is \<open>new Date().toISOString()\<close>.
  The message is not inspected.
\<close>

definition handleCommit ::
  "nat \<Rightarrow> string \<Rightarrow> string \<Rightarrow> AppState \<Rightarrow> error + (string option \<times> AppState)" where
  "handleCommit now isoString msg s =
     (case branchStates s (currentBranch s) of
        None \<Rightarrow> Inl TypeError
      | Some currentBranchState \<Rightarrow>
          if stagedFiles currentBranchState = {}
          then Inr (Some ''No files staged to commit.'', s)
          else
            (let newCommit = \<lparr> commit_id = ''commit-'' @ showNat now,
                                message = msg, timestamp = isoString \<rparr>
             in map_sum (\<lambda>e. e) (Pair None)
                  (setCurrentBranchState
                     (\<lambda>prev. prev\<lparr> commits := newCommit # commits prev,
                                   fileSystem := updateStatusesInTree (fileSystem prev)
                                                   (stagedFiles prev) Unmodified,
                                   stagedFiles := {} \<rparr>) s)))"

text \<open>
  \<open>handleCreateBranch\<close>: the argument is what \<open>window.prompt\<close> returned (\<open>None\<close> for
  \<open>null\<close>). The new entry is \<open>{ ...prev[currentBranch] }\<close>.
\<close>

definition handleCreateBranch ::
  "string option \<Rightarrow> AppState \<Rightarrow> error + (string option \<times> AppState)" where
  "handleCreateBranch prompted s =
     (case prompted of
        None \<Rightarrow> Inr (Some ''Invalid branch name.'', s)
      | Some newBranchName \<Rightarrow>
          if newBranchName = [] then Inr (Some ''Invalid branch name.'', s)
          else if propertyIsTruthy (branchStates s) newBranchName
          then Inr (Some ''Branch already exists.'', s)
          else
            (case branchStates s (currentBranch s) of
               None \<Rightarrow> Inl TypeError
             | Some currentBranchState \<Rightarrow>
                 Inr (None, s\<lparr> branchStates := (branchStates s)(newBranchName \<mapsto> currentBranchState),
                                currentBranch := newBranchName \<rparr>)))"

text \<open>\<open>newBranchFS.children.find(c => c.type === 'file')\<close>.\<close>

fun childrenFindFile :: "FileSystemItem list \<Rightarrow> FileItem option" where
  "childrenFindFile [] = None"
| "childrenFindFile (File item # rest) = Some item"
| "childrenFindFile (Folder i n children # rest) = childrenFindFile rest"

definition handleSwitchBranch :: "string \<Rightarrow> AppState \<Rightarrow> error + AppState" where
  "handleSwitchBranch branchName s =
     (if branchName = currentBranch s then Inr s
      else
        (case branchStates s branchName of
           None \<Rightarrow> Inl TypeError
         | Some newBranchState \<Rightarrow>
             (let newBranchFS = fileSystem newBranchState;
                  newActiveFile =
                    (case activeFile s of
                       Some active \<Rightarrow> findFileInTree newBranchFS (file_id active)
                     | None \<Rightarrow> findFileInTree newBranchFS ''user-service-ts'')
              in case newActiveFile of
                   Some found \<Rightarrow> Inr (s\<lparr>currentBranch := branchName, activeFile := Some found\<rparr>)
                 | None \<Rightarrow>
                     (case newBranchFS of
                        Folder i n children \<Rightarrow>
                          Inr (s\<lparr>currentBranch := branchName,
                                 activeFile := childrenFindFile children\<rparr>)
                      | File item \<Rightarrow> Inl TypeError))))"

text \<open>
  \<open>handleCodeChange\<close>: the argument is the editor's value (\<open>None\<close> for \<open>undefined\<close>). The
  status is taken from the cached \<open>activeFile\<close>, not from the tree.
\<close>

definition handleCodeChange :: "string option \<Rightarrow> AppState \<Rightarrow> error + AppState" where
  "handleCodeChange val s =
     (case val of
        None \<Rightarrow> Inr s
      | Some v \<Rightarrow>
          (case activeFile s of
             None \<Rightarrow> Inr s
           | Some active \<Rightarrow>
               (let updates = \<lparr> id_upd = None, name_upd = None, language_upd = None,
                                 content_upd = Some v,
                                 gitStatus_upd = (if gitStatus active = Unmodified
                                                  then Some Modified else None) \<rparr>
                in case setCurrentBranchState
                          (\<lambda>prev. prev\<lparr>fileSystem :=
                                     updateFileInTree (fileSystem prev) (file_id active) updates\<rparr>) s of
                     Inl e \<Rightarrow> Inl e
                   | Inr s' \<Rightarrow> Inr (s'\<lparr>activeFile := Some (spread active updates)\<rparr>))))"

text \<open>
  \<open>handleCreateFile\<close>: \<open>filename\<close> and \<open>languagePrompt\<close> are the results of the two
  prompts. Spreading the \<open>children\<close> of a root that is not a folder throws.
\<close>

definition handleCreateFile ::
  "nat \<Rightarrow> string option \<Rightarrow> string option \<Rightarrow> AppState \<Rightarrow> error + AppState" where
  "handleCreateFile now filename languagePrompt s =
     (case filename of
        None \<Rightarrow> Inr s
      | Some fname \<Rightarrow>
          if fname = [] then Inr s
          else
            (let lang = (case languagePrompt of
                           None \<Rightarrow> ''plaintext''
                         | Some l \<Rightarrow> if l = [] then ''plaintext'' else l);
                 newFile = \<lparr> file_id = ''file-'' @ showNat now, name = trim fname,
                             language = toLowerCase (trim lang), content = [],
                             gitStatus = New \<rparr>
             in case branchStates s (currentBranch s) of
                  None \<Rightarrow> Inl TypeError
                | Some prev \<Rightarrow>
                    (case fileSystem prev of
                       Folder i n children \<Rightarrow>
                         Inr (s\<lparr> branchStates := (branchStates s)(currentBranch s \<mapsto>
                                    prev\<lparr>fileSystem := Folder i n (children @ [File newFile])\<rparr>),
                                 activeFile := Some newFile \<rparr>)
                     | File item \<Rightarrow> Inl TypeError)))"

section \<open>The GitPanel component\<close>

text \<open>
  The \<open>stagedFiles\<close> prop of the panel is \<open>stagedFileItems\<close>: the staged ids resolved with
  \<open>findFileInTree\<close>, the misses filtered out. The panel only tests whether it is empty.
\<close>

definition stagedFileItems :: "BranchState \<Rightarrow> FileItem set" where
  "stagedFileItems b = Option.these ((\<lambda>fid. findFileInTree (fileSystem b) fid) ` stagedFiles b)"

text \<open>
  \<open>GitPanel.handleCommit\<close>: \<open>commitMessage\<close> is the panel's own state; the result holds
  the alert of \<open>onCommit\<close>, the panel's next \<open>commitMessage\<close> and the next \<open>App\<close> state.
\<close>

definition GitPanel_handleCommit ::
  "nat \<Rightarrow> string \<Rightarrow> string \<Rightarrow> AppState \<Rightarrow> error + (string option \<times> string \<times> AppState)" where
  "GitPanel_handleCommit now isoString commitMessage s =
     (case branchStates s (currentBranch s) of
        None \<Rightarrow> Inl TypeError
      | Some currentBranchState \<Rightarrow>
          if trim commitMessage \<noteq> [] \<and> stagedFileItems currentBranchState \<noteq> {}
          then (case handleCommit now isoString (trim commitMessage) s of
                  Inl e \<Rightarrow> Inl e
                | Inr (shown, s') \<Rightarrow> Inr (shown, [], s'))
          else Inr (None, commitMessage, s))"

section \<open>Operations as data\<close>

text \<open>
  The eight operations of the engine, each with what the environment supplies to its
  handler (clock readings, prompt results, the editor's value). \<open>perform\<close> runs the
  handler and drops the text of an alert; \<open>performAll\<close> runs a sequence and stops at the
  first exception.
\<close>

datatype operation =
    Stage string
  | Unstage string
  | StageAll
  | Commit nat string string
  | CreateBranch "string option"
  | SwitchBranch string
  | Edit "string option"
  | CreateFile nat "string option" "string option"

fun perform :: "operation \<Rightarrow> AppState \<Rightarrow> error + AppState" where
  "perform (Stage fileId) s = handleStage fileId s"
| "perform (Unstage fileId) s = handleUnstage fileId s"
| "perform StageAll s = handleStageAll s"
| "perform (Commit now isoString msg) s = map_sum (\<lambda>e. e) snd (handleCommit now isoString msg s)"
| "perform (CreateBranch prompted) s = map_sum (\<lambda>e. e) snd (handleCreateBranch prompted s)"
| "perform (SwitchBranch branchName) s = handleSwitchBranch branchName s"
| "perform (Edit val) s = handleCodeChange val s"
| "perform (CreateFile now filename languagePrompt) s = handleCreateFile now filename languagePrompt s"

fun performAll :: "operation list \<Rightarrow> AppState \<Rightarrow> error + AppState" where
  "performAll [] s = Inr s"
| "performAll (op # ops) s =
     (case perform op s of Inl e \<Rightarrow> Inl e | Inr s' \<Rightarrow> performAll ops s')"

text \<open>The operations that go through \<open>setCurrentBranchState\<close> only.\<close>

fun snapshotOperation :: "operation \<Rightarrow> bool" where
  "snapshotOperation (CreateBranch prompted) = False"
| "snapshotOperation (SwitchBranch branchName) = False"
| "snapshotOperation other = True"

section \<open>Observers used to state the properties\<close>

text \<open>Every file of a tree, in pre-order.\<close>

fun allFiles :: "FileSystemItem \<Rightarrow> FileItem list" where
  "allFiles (File item) = [item]"
| "allFiles (Folder i n children) = concat (map allFiles children)"

fun isFolder :: "FileSystemItem \<Rightarrow> bool" where
  "isFolder (Folder i n children) = True"
| "isFolder (File item) = False"

text \<open>
  A state the component can render: the current branch is a key of the store and every
  root is a folder, as the type \<open>FolderItem\<close> of \<open>fileSystem\<close> says.
\<close>

definition renderable :: "AppState \<Rightarrow> bool" where
  "renderable s =
     (currentBranch s \<in> dom (branchStates s) \<and>
      (\<forall>b \<in> ran (branchStates s). isFolder (fileSystem b)))"

text \<open>
  The staged-set invariant of one snapshot: every staged id resolves, through
  \<open>findFileInTree\<close>, to a file whose status is not \<open>unmodified\<close>.
\<close>

definition stagedResolve :: "BranchState \<Rightarrow> bool" where
  "stagedResolve b =
     (\<forall>fid \<in> stagedFiles b.
        case findFileInTree (fileSystem b) fid of
          None \<Rightarrow> False
        | Some found \<Rightarrow> gitStatus found \<noteq> Unmodified)"

definition storeInvariant :: "AppState \<Rightarrow> bool" where
  "storeInvariant s = (\<forall>b \<in> ran (branchStates s). stagedResolve b)"

text \<open>
  What an operation needs for the invariant to survive it: \<open>stage\<close> must be given the
  id of a changed file, \<open>stageAll\<close> a tree whose file ids are unique, \<open>switchBranch\<close>
  the name of a branch of the store.
\<close>

fun admissible :: "operation \<Rightarrow> AppState \<Rightarrow> bool" where
  "admissible (Stage fileId) s =
     (case branchStates s (currentBranch s) of
        None \<Rightarrow> False
      | Some b \<Rightarrow>
          (case findFileInTree (fileSystem b) fileId of
             None \<Rightarrow> False
           | Some found \<Rightarrow> gitStatus found \<noteq> Unmodified))"
| "admissible StageAll s =
     (case branchStates s (currentBranch s) of
        None \<Rightarrow> False
      | Some b \<Rightarrow> distinct (map file_id (allFiles (fileSystem b))))"
| "admissible (SwitchBranch branchName) s = (branchStates s branchName \<noteq> None)"
| "admissible other s = True"

section \<open>A small project used for concrete runs\<close>

definition exampleFileA :: FileItem where
  "exampleFileA = \<lparr> file_id = ''a.ts'', name = ''a.ts'', language = ''typescript'',
                     content = ''let a = 1'', gitStatus = Modified \<rparr>"

definition exampleFileB :: FileItem where
  "exampleFileB = \<lparr> file_id = ''b.ts'', name = ''b.ts'', language = ''typescript'',
                     content = ''let b = 2'', gitStatus = Unmodified \<rparr>"

definition exampleTree :: FileSystemItem where
  "exampleTree =
     Folder ''root'' ''project'' [File exampleFileA, Folder ''src'' ''src'' [File exampleFileB]]"

definition exampleSnapshot :: BranchState where
  "exampleSnapshot = \<lparr> fileSystem = exampleTree, stagedFiles = {''a.ts''}, commits = [] \<rparr>"

definition exampleState :: AppState where
  "exampleState = \<lparr> branchStates = [''main'' \<mapsto> exampleSnapshot], currentBranch = ''main'',
                     activeFile = Some exampleFileA \<rparr>"

definition unstagedSnapshot :: BranchState where
  "unstagedSnapshot = \<lparr> fileSystem = exampleTree, stagedFiles = {}, commits = [] \<rparr>"

definition unstagedState :: AppState where
  "unstagedState = \<lparr> branchStates = [''main'' \<mapsto> unstagedSnapshot], currentBranch = ''main'',
                      activeFile = Some exampleFileA \<rparr>"

definition committedSnapshot :: BranchState where
  "committedSnapshot =
     \<lparr> fileSystem = exampleTree, stagedFiles = {''a.ts''},
       commits = [\<lparr> commit_id = ''commit-5'', message = ''init'',
                    timestamp = ''2026-11-02T00:00:00.000Z'' \<rparr>] \<rparr>"

definition committedState :: AppState where
  "committedState = \<lparr> branchStates = [''main'' \<mapsto> committedSnapshot], currentBranch = ''main'',
                       activeFile = Some exampleFileA \<rparr>"

definition danglingSnapshot :: BranchState where
  "danglingSnapshot = \<lparr> fileSystem = exampleTree, stagedFiles = {''ghost.ts''}, commits = [] \<rparr>"

definition danglingState :: AppState where
  "danglingState = \<lparr> branchStates = [''main'' \<mapsto> danglingSnapshot], currentBranch = ''main'',
                      activeFile = Some exampleFileA \<rparr>"

definition twoBranchState :: AppState where
  "twoBranchState =
     \<lparr> branchStates = [''main'' \<mapsto> exampleSnapshot, ''feature'' \<mapsto> unstagedSnapshot],
       currentBranch = ''main'', activeFile = Some exampleFileB \<rparr>"

section \<open>The tree helpers\<close>

lemmas example_defs =
  exampleState_def exampleSnapshot_def unstagedState_def unstagedSnapshot_def
  twoBranchState_def committedState_def committedSnapshot_def
  danglingState_def danglingSnapshot_def
  exampleTree_def exampleFileA_def exampleFileB_def

lemma update_unknown_id:
  "findFileInTree t fileId = None \<Longrightarrow> updateFileInTree t fileId updates = t"
  "findFileInChildren cs fileId = None \<Longrightarrow>
     map (\<lambda>child. updateFileInTree child fileId updates) cs = cs"
  by (induction t fileId and cs fileId rule: findFileInTree_findFileInChildren.induct)
     (auto split: if_splits option.splits)

lemma find_none_iff:
  "(findFileInTree t fileId = None) = (fileId \<notin> file_id ` set (allFiles t))"
  "(findFileInChildren cs fileId = None) =
     (fileId \<notin> file_id ` set (concat (map allFiles cs)))"
  by (induction t fileId and cs fileId rule: findFileInTree_findFileInChildren.induct)
     (auto split: option.splits)

text \<open>
  C8 (update no-op law). \<open>updateFileInTree\<close> is a total function, so it returns for every
  tree, id and patch; when the id matches no file of the tree (\<open>findFileInTree\<close> finds
  none, which by \<open>find_none_iff\<close> means that no file of the tree has the id) the tree it
  returns is equal to the tree it was given.
\<close>

theorem update_noop_law:
  "findFileInTree tree fileId = None \<Longrightarrow> updateFileInTree tree fileId patch = tree"
  by (rule update_unknown_id(1))

theorem update_noop_law_witness:
  "findFileInTree exampleTree ''ghost.ts'' = None \<and>
   updateFileInTree exampleTree ''ghost.ts''
     \<lparr> id_upd = None, name_upd = None, language_upd = None,
       content_upd = Some ''changed'', gitStatus_upd = Some Modified \<rparr> = exampleTree"
proof -
  have miss: "findFileInTree exampleTree ''ghost.ts'' = None"
    by (simp add: exampleTree_def exampleFileA_def exampleFileB_def)
  show ?thesis
    using miss update_noop_law [OF miss] by simp
qed

lemma updateStatuses_again:
  "updateStatusesInTree (updateStatusesInTree t fileIds st) fileIds st' =
   updateStatusesInTree t fileIds st'"
  by (induction t fileIds st rule: updateStatusesInTree.induct) auto

lemma allFiles_updateStatuses:
  "allFiles (updateStatusesInTree t fileIds st) =
     map (\<lambda>f. if file_id f \<in> fileIds then f\<lparr>gitStatus := st\<rparr> else f) (allFiles t)"
proof (induction t fileIds st rule: updateStatusesInTree.induct)
  case (1 item fileIds newStatus)
  show ?case by simp
next
  case (2 i n children fileIds newStatus)
  then show ?case
    by (simp add: map_concat comp_def cong: map_cong)
qed

section \<open>Commit\<close>

lemma commit_succeeds:
  assumes "branchStates s (currentBranch s) = Some b" and "stagedFiles b \<noteq> {}"
  shows "handleCommit now isoString msg s =
           Inr (None, s\<lparr>branchStates := (branchStates s)(currentBranch s \<mapsto>
                  b\<lparr> commits := \<lparr> commit_id = ''commit-'' @ showNat now, message = msg,
                                    timestamp = isoString \<rparr> # commits b,
                     fileSystem := updateStatusesInTree (fileSystem b) (stagedFiles b) Unmodified,
                     stagedFiles := {} \<rparr>)\<rparr>)"
  using assms by (simp add: handleCommit_def setCurrentBranchState_def)






text \<open>
  C10 (commit frame). A successful commit leaves the files of the tree in place, each
  with the id, name, language and content it had; a file whose id was not staged also
  keeps its status. The two trees differ at most in the status of staged files: they
  become equal once those statuses are overwritten with a common value.
\<close>

theorem commit_frame:
  assumes "branchStates s (currentBranch s) = Some b" and "stagedFiles b \<noteq> {}"
  shows "\<exists>b'. handleCommit now isoString msg s =
                 Inr (None, s\<lparr>branchStates := (branchStates s)(currentBranch s \<mapsto> b')\<rparr>) \<and>
              list_all2 (\<lambda>old new. file_id new = file_id old \<and> name new = name old \<and>
                           language new = language old \<and> content new = content old \<and>
                           (file_id old \<notin> stagedFiles b \<longrightarrow> gitStatus new = gitStatus old))
                (allFiles (fileSystem b)) (allFiles (fileSystem b')) \<and>
              (\<forall>st. updateStatusesInTree (fileSystem b') (stagedFiles b) st =
                    updateStatusesInTree (fileSystem b) (stagedFiles b) st)"
proof -
  let ?b' = "b\<lparr> commits := \<lparr> commit_id = ''commit-'' @ showNat now, message = msg,
                                timestamp = isoString \<rparr> # commits b,
                 fileSystem := updateStatusesInTree (fileSystem b) (stagedFiles b) Unmodified,
                 stagedFiles := {} \<rparr>"
  have run: "handleCommit now isoString msg s =
               Inr (None, s\<lparr>branchStates := (branchStates s)(currentBranch s \<mapsto> ?b')\<rparr>)"
    by (rule commit_succeeds [OF assms])
  have files: "list_all2 (\<lambda>old new. file_id new = file_id old \<and> name new = name old \<and>
                           language new = language old \<and> content new = content old \<and>
                           (file_id old \<notin> stagedFiles b \<longrightarrow> gitStatus new = gitStatus old))
                (allFiles (fileSystem b)) (allFiles (fileSystem ?b'))"
    by (simp add: allFiles_updateStatuses list_all2_map2 list_all2_same)
  have shape: "\<forall>st. updateStatusesInTree (fileSystem ?b') (stagedFiles b) st =
                    updateStatusesInTree (fileSystem b) (stagedFiles b) st"
    by (simp add: updateStatuses_again)
  show ?thesis
    apply (rule exI [of _ ?b'])
    using run files shape by simp
qed

theorem commit_frame_witness:
  "branchStates exampleState (currentBranch exampleState) = Some exampleSnapshot \<and>
   stagedFiles exampleSnapshot \<noteq> {} \<and>
   (\<exists>b'. handleCommit 17 ''2026-11-03T00:00:00.000Z'' ''fix'' exampleState =
            Inr (None, exampleState\<lparr>branchStates :=
                   (branchStates exampleState)(currentBranch exampleState \<mapsto> b')\<rparr>) \<and>
         list_all2 (\<lambda>old new. file_id new = file_id old \<and> name new = name old \<and>
                      language new = language old \<and> content new = content old \<and>
                      (file_id old \<notin> stagedFiles exampleSnapshot \<longrightarrow>
                         gitStatus new = gitStatus old))
           (allFiles (fileSystem exampleSnapshot)) (allFiles (fileSystem b')) \<and>
         (\<forall>st. updateStatusesInTree (fileSystem b') (stagedFiles exampleSnapshot) st =
               updateStatusesInTree (fileSystem exampleSnapshot) (stagedFiles exampleSnapshot) st))"
proof -
  have current: "branchStates exampleState (currentBranch exampleState) = Some exampleSnapshot"
    by (simp add: exampleState_def)
  have staged: "stagedFiles exampleSnapshot \<noteq> {}"
    by (simp add: exampleSnapshot_def)
  show ?thesis
    using current staged commit_frame [OF current staged] by simp
qed

lemma commit_nothing_staged:
  assumes "branchStates s (currentBranch s) = Some b" and "stagedFiles b = {}"
  shows "handleCommit now isoString msg s = Inr (Some ''No files staged to commit.'', s)"
  using assms by (simp add: handleCommit_def)

lemma stagedFileItems_empty:
  "(stagedFileItems b = {}) =
     (\<forall>fid \<in> stagedFiles b. findFileInTree (fileSystem b) fid = None)"
  by (auto simp: stagedFileItems_def Option.these_def image_iff)

lemma panel_commit_refused:
  assumes "branchStates s (currentBranch s) = Some b"
    and "trim commitMessage = [] \<or> stagedFiles b = {} \<or> stagedFileItems b = {}"
  shows "GitPanel_handleCommit now isoString commitMessage s = Inr (None, commitMessage, s)"
  using assms by (auto simp: GitPanel_handleCommit_def stagedFileItems_def)

lemma panel_commit_accepted:
  assumes "branchStates s (currentBranch s) = Some b"
    and "trim commitMessage \<noteq> []" and "stagedFileItems b \<noteq> {}"
  shows "GitPanel_handleCommit now isoString commitMessage s =
           Inr (None, [], s\<lparr>branchStates := (branchStates s)(currentBranch s \<mapsto>
                  b\<lparr> commits := \<lparr> commit_id = ''commit-'' @ showNat now,
                                    message = trim commitMessage,
                                    timestamp = isoString \<rparr> # commits b,
                     fileSystem := updateStatusesInTree (fileSystem b) (stagedFiles b) Unmodified,
                     stagedFiles := {} \<rparr>)\<rparr>)"
proof -
  from assms(3) have staged: "stagedFiles b \<noteq> {}"
    by (auto simp: stagedFileItems_def)
  from assms show ?thesis
    by (simp add: GitPanel_handleCommit_def commit_succeeds [OF assms(1) staged])
qed

text \<open>
  C2 (commit rejection), as the code has it. With an empty staged set \<open>handleCommit\<close>
  shows the alert and returns the state it was given. A blank message is refused one
  level up: \<open>GitPanel.handleCommit\<close> leaves the \<open>App\<close> state and its own text field as
  they are when the trimmed message is empty or no staged id resolves to a file of the
  tree (in particular when nothing is staged); otherwise it calls \<open>onCommit\<close> with the
  trimmed message, so that the commit is made with that message, and clears its text
  field. \<open>handleCommit\<close> itself does not look at the message.
\<close>

theorem commit_rejection:
  assumes "branchStates s (currentBranch s) = Some b"
  shows "(stagedFiles b = {} \<longrightarrow>
            handleCommit now isoString msg s = Inr (Some ''No files staged to commit.'', s)) \<and>
         ((stagedFileItems b = {}) =
            (\<forall>fid \<in> stagedFiles b. findFileInTree (fileSystem b) fid = None)) \<and>
         (trim commitMessage = [] \<or> stagedFiles b = {} \<or> stagedFileItems b = {} \<longrightarrow>
            GitPanel_handleCommit now isoString commitMessage s = Inr (None, commitMessage, s)) \<and>
         (trim commitMessage \<noteq> [] \<and> stagedFileItems b \<noteq> {} \<longrightarrow>
            GitPanel_handleCommit now isoString commitMessage s =
              Inr (None, [], s\<lparr>branchStates := (branchStates s)(currentBranch s \<mapsto>
                     b\<lparr> commits := \<lparr> commit_id = ''commit-'' @ showNat now,
                                       message = trim commitMessage,
                                       timestamp = isoString \<rparr> # commits b,
                        fileSystem := updateStatusesInTree (fileSystem b) (stagedFiles b) Unmodified,
                        stagedFiles := {} \<rparr>)\<rparr>))"
proof (intro conjI impI)
  assume "stagedFiles b = {}"
  with assms show "handleCommit now isoString msg s = Inr (Some ''No files staged to commit.'', s)"
    by (rule commit_nothing_staged)
next
  show "(stagedFileItems b = {}) =
          (\<forall>fid \<in> stagedFiles b. findFileInTree (fileSystem b) fid = None)"
    by (rule stagedFileItems_empty)
next
  assume "trim commitMessage = [] \<or> stagedFiles b = {} \<or> stagedFileItems b = {}"
  with assms show "GitPanel_handleCommit now isoString commitMessage s = Inr (None, commitMessage, s)"
    by (rule panel_commit_refused)
next
  assume "trim commitMessage \<noteq> [] \<and> stagedFileItems b \<noteq> {}"
  then have "trim commitMessage \<noteq> []" and "stagedFileItems b \<noteq> {}"
    by simp_all
  with assms show "GitPanel_handleCommit now isoString commitMessage s =
              Inr (None, [], s\<lparr>branchStates := (branchStates s)(currentBranch s \<mapsto>
                     b\<lparr> commits := \<lparr> commit_id = ''commit-'' @ showNat now,
                                       message = trim commitMessage,
                                       timestamp = isoString \<rparr> # commits b,
                        fileSystem := updateStatusesInTree (fileSystem b) (stagedFiles b) Unmodified,
                        stagedFiles := {} \<rparr>)\<rparr>)"
    by (rule panel_commit_accepted)
qed

theorem commit_rejection_witness:
  "branchStates unstagedState (currentBranch unstagedState) = Some unstagedSnapshot \<and>
   stagedFiles unstagedSnapshot = {} \<and> trim ''  '' = [] \<and>
   handleCommit 17 ''2026-11-03T00:00:00.000Z'' ''fix'' unstagedState =
     Inr (Some ''No files staged to commit.'', unstagedState) \<and>
   GitPanel_handleCommit 17 ''2026-11-03T00:00:00.000Z'' ''  '' unstagedState =
     Inr (None, ''  '', unstagedState) \<and>
   branchStates danglingState (currentBranch danglingState) = Some danglingSnapshot \<and>
   stagedFiles danglingSnapshot = {''ghost.ts''} \<and>
   findFileInTree (fileSystem danglingSnapshot) ''ghost.ts'' = None \<and>
   stagedFileItems danglingSnapshot = {} \<and>
   GitPanel_handleCommit 17 ''2026-11-03T00:00:00.000Z'' ''fix'' danglingState =
     Inr (None, ''fix'', danglingState) \<and>
   branchStates exampleState (currentBranch exampleState) = Some exampleSnapshot \<and>
   trim '' fix it  '' = ''fix it'' \<and>
   stagedFileItems exampleSnapshot = {exampleFileA} \<and>
   GitPanel_handleCommit 17 ''2026-11-03T00:00:00.000Z'' '' fix it  '' exampleState =
     Inr (None, [], exampleState\<lparr>branchStates :=
            (branchStates exampleState)(currentBranch exampleState \<mapsto>
               exampleSnapshot\<lparr> commits := \<lparr> commit_id = ''commit-'' @ showNat 17,
                                              message = ''fix it'',
                                              timestamp = ''2026-11-03T00:00:00.000Z'' \<rparr> #
                                            commits exampleSnapshot,
                                fileSystem := updateStatusesInTree (fileSystem exampleSnapshot)
                                                (stagedFiles exampleSnapshot) Unmodified,
                                stagedFiles := {} \<rparr>)\<rparr>)"
proof -
  have current: "branchStates unstagedState (currentBranch unstagedState) = Some unstagedSnapshot"
    by (simp add: unstagedState_def)
  have unstaged: "stagedFiles unstagedSnapshot = {}"
    by (simp add: unstagedSnapshot_def)
  have blank: "trim ''  '' = []"
    by (simp add: trim_def isWhiteSpace_def)
  note first = commit_rejection [OF current, of 17 "''2026-11-03T00:00:00.000Z''" "''fix''" "''  ''"]
  from first unstaged have engine:
    "handleCommit 17 ''2026-11-03T00:00:00.000Z'' ''fix'' unstagedState =
       Inr (Some ''No files staged to commit.'', unstagedState)"
    by blast
  from first blank have panel:
    "GitPanel_handleCommit 17 ''2026-11-03T00:00:00.000Z'' ''  '' unstagedState =
       Inr (None, ''  '', unstagedState)"
    by blast
  have current2: "branchStates danglingState (currentBranch danglingState) = Some danglingSnapshot"
    by (simp add: danglingState_def)
  have staged2: "stagedFiles danglingSnapshot = {''ghost.ts''}"
    by (simp add: danglingSnapshot_def)
  have miss: "findFileInTree (fileSystem danglingSnapshot) ''ghost.ts'' = None"
    by (simp add: example_defs)
  note second = commit_rejection [OF current2, of 17 "''2026-11-03T00:00:00.000Z''" "''fix''" "''fix''"]
  from second staged2 miss have none: "stagedFileItems danglingSnapshot = {}"
    by simp
  with second have panel2:
    "GitPanel_handleCommit 17 ''2026-11-03T00:00:00.000Z'' ''fix'' danglingState =
       Inr (None, ''fix'', danglingState)"
    by blast
  have current3: "branchStates exampleState (currentBranch exampleState) = Some exampleSnapshot"
    by (simp add: exampleState_def)
  have trimmed: "trim '' fix it  '' = ''fix it''"
    by (simp add: trim_def isWhiteSpace_def)
  have items: "stagedFileItems exampleSnapshot = {exampleFileA}"
    by (simp add: stagedFileItems_def example_defs)
  have ready: "trim '' fix it  '' \<noteq> [] \<and> stagedFileItems exampleSnapshot \<noteq> {}"
    by (simp add: trimmed items)
  note third = commit_rejection [OF current3, of 17 "''2026-11-03T00:00:00.000Z''" "''fix''"
      "'' fix it  ''"]
  from third ready have panel3:
    "GitPanel_handleCommit 17 ''2026-11-03T00:00:00.000Z'' '' fix it  '' exampleState =
     Inr (None, [], exampleState\<lparr>branchStates :=
            (branchStates exampleState)(currentBranch exampleState \<mapsto>
               exampleSnapshot\<lparr> commits := \<lparr> commit_id = ''commit-'' @ showNat 17,
                                              message = trim '' fix it  '',
                                              timestamp = ''2026-11-03T00:00:00.000Z'' \<rparr> #
                                            commits exampleSnapshot,
                                fileSystem := updateStatusesInTree (fileSystem exampleSnapshot)
                                                (stagedFiles exampleSnapshot) Unmodified,
                                stagedFiles := {} \<rparr>)\<rparr>)"
    by blast
  then have panel3':
    "GitPanel_handleCommit 17 ''2026-11-03T00:00:00.000Z'' '' fix it  '' exampleState =
     Inr (None, [], exampleState\<lparr>branchStates :=
            (branchStates exampleState)(currentBranch exampleState \<mapsto>
               exampleSnapshot\<lparr> commits := \<lparr> commit_id = ''commit-'' @ showNat 17,
                                              message = ''fix it'',
                                              timestamp = ''2026-11-03T00:00:00.000Z'' \<rparr> #
                                            commits exampleSnapshot,
                                fileSystem := updateStatusesInTree (fileSystem exampleSnapshot)
                                                (stagedFiles exampleSnapshot) Unmodified,
                                stagedFiles := {} \<rparr>)\<rparr>)"
    by (simp only: trimmed)
  from current unstaged blank engine panel current2 staged2 miss none panel2
    current3 trimmed items panel3'
  show ?thesis
    by (intro conjI)
qed

text \<open>
  The claim as stated fails for \<open>handleCommit\<close>: with \<open>a.ts\<close> staged, the empty message
  is committed; the staged set is cleared, \<open>a.ts\<close> becomes \<open>unmodified\<close> and the log
  receives a commit whose message is empty.
\<close>

theorem commit_blank_message_counterexample:
  "branchStates exampleState (currentBranch exampleState) = Some exampleSnapshot \<and>
   stagedFiles exampleSnapshot = {''a.ts''} \<and> commits exampleSnapshot = [] \<and>
   handleCommit 17 ''2026-11-03T00:00:00.000Z'' [] exampleState =
     Inr (None, exampleState\<lparr>branchStates :=
            [''main'' \<mapsto>
               \<lparr> fileSystem =
                   Folder ''root'' ''project''
                     [File (exampleFileA\<lparr>gitStatus := Unmodified\<rparr>),
                      Folder ''src'' ''src'' [File exampleFileB]],
                 stagedFiles = {},
                 commits = [\<lparr> commit_id = ''commit-17'', message = [],
                              timestamp = ''2026-11-03T00:00:00.000Z'' \<rparr>] \<rparr>]\<rparr>)"
proof -
  have current: "branchStates exampleState (currentBranch exampleState) = Some exampleSnapshot"
    by (simp add: exampleState_def)
  have staged: "stagedFiles exampleSnapshot = {''a.ts''}"
    by (simp add: exampleSnapshot_def)
  have stamp: "showNat 17 = ''17''"
    by (simp add: showNat.simps)
  have nonempty: "stagedFiles exampleSnapshot \<noteq> {}"
    by (simp add: staged)
  have run: "handleCommit 17 ''2026-11-03T00:00:00.000Z'' [] exampleState =
     Inr (None, exampleState\<lparr>branchStates :=
            [''main'' \<mapsto>
               \<lparr> fileSystem =
                   Folder ''root'' ''project''
                     [File (exampleFileA\<lparr>gitStatus := Unmodified\<rparr>),
                      Folder ''src'' ''src'' [File exampleFileB]],
                 stagedFiles = {},
                 commits = [\<lparr> commit_id = ''commit-17'', message = [],
                              timestamp = ''2026-11-03T00:00:00.000Z'' \<rparr>] \<rparr>]\<rparr>)"
    by (simp add: commit_succeeds [OF current nonempty] stamp)
       (simp add: example_defs)
  have log: "commits exampleSnapshot = []"
    by (simp add: exampleSnapshot_def)
  show ?thesis
    using current staged log run by blast
qed

section \<open>Staging\<close>

lemma stageAll_run:
  assumes "branchStates s (currentBranch s) = Some b"
  shows "handleStageAll s =
           Inr (s\<lparr>branchStates := (branchStates s)(currentBranch s \<mapsto>
                  b\<lparr>stagedFiles := file_id ` set (findChangedFiles (fileSystem b) [])\<rparr>)\<rparr>)"
  using assms by (simp add: handleStageAll_def setCurrentBranchState_def)

text \<open>
  C9 (stageAll). \<open>handleStageAll\<close> succeeds and makes the staged set of the current branch
  exactly the set of ids of the files that \<open>findChangedFiles\<close> collects from its tree,
  whatever was staged before; the tree is not touched. Run again on the state it
  produced, it returns that very state, so the staged set is the same both times.
\<close>

theorem stageAll_exact_and_idempotent:
  assumes "branchStates s (currentBranch s) = Some b"
  shows "\<exists>s1 b1. handleStageAll s = Inr s1 \<and>
                  branchStates s1 (currentBranch s1) = Some b1 \<and>
                  stagedFiles b1 = file_id ` set (findChangedFiles (fileSystem b) []) \<and>
                  fileSystem b1 = fileSystem b \<and>
                  handleStageAll s1 = Inr s1"
proof -
  let ?b1 = "b\<lparr>stagedFiles := file_id ` set (findChangedFiles (fileSystem b) [])\<rparr>"
  let ?s1 = "s\<lparr>branchStates := (branchStates s)(currentBranch s \<mapsto> ?b1)\<rparr>"
  have first: "handleStageAll s = Inr ?s1"
    by (rule stageAll_run [OF assms])
  have current: "branchStates ?s1 (currentBranch ?s1) = Some ?b1"
    by simp
  have second: "handleStageAll ?s1 = Inr ?s1"
    using stageAll_run [OF current] by simp
  show ?thesis
    apply (rule exI [of _ ?s1])
    apply (rule exI [of _ ?b1])
    using first current second by simp
qed

theorem stageAll_exact_and_idempotent_witness:
  "branchStates unstagedState (currentBranch unstagedState) = Some unstagedSnapshot \<and>
   (\<exists>s1 b1. handleStageAll unstagedState = Inr s1 \<and>
             branchStates s1 (currentBranch s1) = Some b1 \<and>
             stagedFiles b1 = file_id ` set (findChangedFiles (fileSystem unstagedSnapshot) []) \<and>
             fileSystem b1 = fileSystem unstagedSnapshot \<and>
             handleStageAll s1 = Inr s1)"
proof -
  have current: "branchStates unstagedState (currentBranch unstagedState) = Some unstagedSnapshot"
    by (simp add: unstagedState_def)
  show ?thesis
    using current stageAll_exact_and_idempotent [OF current] by simp
qed

lemma stage_run:
  assumes "branchStates s (currentBranch s) = Some b"
  shows "handleStage fileId s =
           Inr (s\<lparr>branchStates := (branchStates s)(currentBranch s \<mapsto>
                  b\<lparr>stagedFiles := insert fileId (stagedFiles b)\<rparr>)\<rparr>)"
  using assms by (simp add: handleStage_def setCurrentBranchState_def)

lemma snapshot_write_same:
  assumes "branchStates s c = Some b"
  shows "(s\<lparr>branchStates := (branchStates s)(c \<mapsto> b')\<rparr> = s) = (b' = b)"
proof
  assume "s\<lparr>branchStates := (branchStates s)(c \<mapsto> b')\<rparr> = s"
  then have "branchStates (s\<lparr>branchStates := (branchStates s)(c \<mapsto> b')\<rparr>) c = branchStates s c"
    by simp
  with assms show "b' = b" by simp
next
  assume "b' = b"
  with assms have "(branchStates s)(c \<mapsto> b') = branchStates s"
    by (simp add: map_upd_triv)
  then show "s\<lparr>branchStates := (branchStates s)(c \<mapsto> b')\<rparr> = s" by simp
qed

lemma staged_write_same:
  "(b\<lparr>stagedFiles := S\<rparr> = b) = (S = stagedFiles b)"
proof
  assume "b\<lparr>stagedFiles := S\<rparr> = b"
  then have "stagedFiles (b\<lparr>stagedFiles := S\<rparr>) = stagedFiles b" by simp
  then show "S = stagedFiles b" by simp
next
  assume "S = stagedFiles b"
  then show "b\<lparr>stagedFiles := S\<rparr> = b" by simp
qed

text \<open>
  C5 (stage), as the code has it. \<open>handleStage\<close> succeeds for every id and adds it to the
  staged set of the current branch, whether or not a file with that id exists in the
  tree; tree, commit log and the other branches are unchanged. It returns the state it
  was given exactly when the id was already staged.
\<close>

theorem stage_always_adds:
  assumes "branchStates s (currentBranch s) = Some b"
  shows "handleStage fileId s =
           Inr (s\<lparr>branchStates := (branchStates s)(currentBranch s \<mapsto>
                  b\<lparr>stagedFiles := insert fileId (stagedFiles b)\<rparr>)\<rparr>) \<and>
         ((handleStage fileId s = Inr s) = (fileId \<in> stagedFiles b))"
  using assms
  by (auto simp: stage_run [OF assms] snapshot_write_same [OF assms] staged_write_same)

theorem stage_always_adds_witness:
  "branchStates unstagedState (currentBranch unstagedState) = Some unstagedSnapshot \<and>
   handleStage ''a.ts'' unstagedState =
     Inr (unstagedState\<lparr>branchStates := (branchStates unstagedState)(currentBranch unstagedState \<mapsto>
            unstagedSnapshot\<lparr>stagedFiles := insert ''a.ts'' (stagedFiles unstagedSnapshot)\<rparr>)\<rparr>) \<and>
   ((handleStage ''a.ts'' unstagedState = Inr unstagedState) = (''a.ts'' \<in> stagedFiles unstagedSnapshot))"
proof -
  have current: "branchStates unstagedState (currentBranch unstagedState) = Some unstagedSnapshot"
    by (simp add: unstagedState_def)
  show ?thesis
    using current stage_always_adds [OF current, of "''a.ts''"] by blast
qed

text \<open>
  The claim as stated fails: \<open>ghost.ts\<close> names no file of the tree, yet staging it is not
  a no-op; the id enters the staged set.
\<close>

theorem stage_unknown_id_counterexample:
  "findFileInTree (fileSystem unstagedSnapshot) ''ghost.ts'' = None \<and>
   branchStates unstagedState (currentBranch unstagedState) = Some unstagedSnapshot \<and>
   handleStage ''ghost.ts'' unstagedState =
     Inr (unstagedState\<lparr>branchStates :=
            [''main'' \<mapsto> unstagedSnapshot\<lparr>stagedFiles := {''ghost.ts''}\<rparr>]\<rparr>) \<and>
   handleStage ''ghost.ts'' unstagedState \<noteq> Inr unstagedState"
proof -
  have miss: "findFileInTree (fileSystem unstagedSnapshot) ''ghost.ts'' = None"
    by (simp add: example_defs)
  have current: "branchStates unstagedState (currentBranch unstagedState) = Some unstagedSnapshot"
    by (simp add: unstagedState_def)
  have run: "handleStage ''ghost.ts'' unstagedState =
     Inr (unstagedState\<lparr>branchStates :=
            [''main'' \<mapsto> unstagedSnapshot\<lparr>stagedFiles := {''ghost.ts''}\<rparr>]\<rparr>)"
    by (simp add: stage_run [OF current]) (simp add: unstagedState_def unstagedSnapshot_def)
  have changed: "handleStage ''ghost.ts'' unstagedState \<noteq> Inr unstagedState"
    by (simp add: stage_run [OF current] snapshot_write_same [OF current] staged_write_same)
       (simp add: unstagedSnapshot_def)
  show ?thesis
    using miss current run changed by simp
qed

section \<open>Branches\<close>

lemma switchBranch_same:
  "handleSwitchBranch (currentBranch s) s = Inr s"
  by (simp add: handleSwitchBranch_def)

lemma switchBranch_missing:
  assumes "branchName \<noteq> currentBranch s" and "branchStates s branchName = None"
  shows "handleSwitchBranch branchName s = Inl TypeError"
  using assms by (simp add: handleSwitchBranch_def)

lemma switchBranch_existing:
  assumes "branchName \<noteq> currentBranch s" and "branchStates s branchName = Some nb"
    and "isFolder (fileSystem nb)"
  shows "\<exists>active. handleSwitchBranch branchName s =
           Inr (s\<lparr>currentBranch := branchName, activeFile := active\<rparr>)"
  using assms
  by (cases "fileSystem nb")
     (auto simp: handleSwitchBranch_def Let_def split: option.splits)

lemma switchBranch_resolution:
  assumes "branchName \<noteq> currentBranch s" and "branchStates s branchName = Some nb"
    and "fileSystem nb = Folder i n children"
  shows "handleSwitchBranch branchName s =
           Inr (s\<lparr>currentBranch := branchName,
                  activeFile :=
                    (case (case activeFile s of
                             Some active \<Rightarrow> findFileInTree (fileSystem nb) (file_id active)
                           | None \<Rightarrow> findFileInTree (fileSystem nb) ''user-service-ts'') of
                       Some found \<Rightarrow> Some found
                     | None \<Rightarrow> childrenFindFile children)\<rparr>)"
  using assms
  by (simp add: handleSwitchBranch_def Let_def split: option.splits)

text \<open>
  C6 (switchBranch), as the code has it. \<open>handleSwitchBranch\<close> returns the state it was
  given when the name is the current branch. For another name that is a key of the
  store it makes that branch current and re-resolves the active file against that
  branch's tree: the file found there under the id of the open file (under the id
  \<open>user-service-ts\<close> when no file is open) or, when there is none, the first file among
  the children of the root, if any. The store itself, hence every snapshot, is
  unchanged. For a name that is not a key of the store it is not a no-op: reading
  \<open>branchStates[branchName].fileSystem\<close> throws.
\<close>

theorem switchBranch_contract:
  "(branchName = currentBranch s \<longrightarrow> handleSwitchBranch branchName s = Inr s) \<and>
   (branchName \<noteq> currentBranch s \<and> branchStates s branchName = Some nb \<and>
      fileSystem nb = Folder i n children \<longrightarrow>
      handleSwitchBranch branchName s =
        Inr (s\<lparr>currentBranch := branchName,
               activeFile :=
                 (case (case activeFile s of
                          Some active \<Rightarrow> findFileInTree (fileSystem nb) (file_id active)
                        | None \<Rightarrow> findFileInTree (fileSystem nb) ''user-service-ts'') of
                    Some found \<Rightarrow> Some found
                  | None \<Rightarrow> childrenFindFile children)\<rparr>)) \<and>
   (branchName \<noteq> currentBranch s \<and> branchStates s branchName = None \<longrightarrow>
      handleSwitchBranch branchName s = Inl TypeError)"
proof (intro conjI impI)
  assume "branchName = currentBranch s"
  then show "handleSwitchBranch branchName s = Inr s"
    by (simp add: switchBranch_same)
next
  assume "branchName \<noteq> currentBranch s \<and> branchStates s branchName = Some nb \<and>
          fileSystem nb = Folder i n children"
  then have "branchName \<noteq> currentBranch s" and "branchStates s branchName = Some nb"
    and "fileSystem nb = Folder i n children"
    by simp_all
  then show "handleSwitchBranch branchName s =
        Inr (s\<lparr>currentBranch := branchName,
               activeFile :=
                 (case (case activeFile s of
                          Some active \<Rightarrow> findFileInTree (fileSystem nb) (file_id active)
                        | None \<Rightarrow> findFileInTree (fileSystem nb) ''user-service-ts'') of
                    Some found \<Rightarrow> Some found
                  | None \<Rightarrow> childrenFindFile children)\<rparr>)"
    by (rule switchBranch_resolution)
next
  assume "branchName \<noteq> currentBranch s \<and> branchStates s branchName = None"
  then show "handleSwitchBranch branchName s = Inl TypeError"
    by (simp add: switchBranch_missing)
qed

theorem switchBranch_contract_witness:
  "''main'' = currentBranch twoBranchState \<and>
   handleSwitchBranch ''main'' twoBranchState = Inr twoBranchState \<and>
   ''feature'' \<noteq> currentBranch twoBranchState \<and>
   branchStates twoBranchState ''feature'' = Some unstagedSnapshot \<and>
   fileSystem unstagedSnapshot =
     Folder ''root'' ''project'' [File exampleFileA, Folder ''src'' ''src'' [File exampleFileB]] \<and>
   activeFile twoBranchState = Some exampleFileB \<and>
   handleSwitchBranch ''feature'' twoBranchState =
     Inr (twoBranchState\<lparr>currentBranch := ''feature'', activeFile := Some exampleFileB\<rparr>) \<and>
   handleSwitchBranch ''feature'' (twoBranchState\<lparr>activeFile := None\<rparr>) =
     Inr (twoBranchState\<lparr>currentBranch := ''feature'', activeFile := Some exampleFileA\<rparr>) \<and>
   ''ghost'' \<noteq> currentBranch twoBranchState \<and>
   branchStates twoBranchState ''ghost'' = None \<and>
   handleSwitchBranch ''ghost'' twoBranchState = Inl TypeError"
proof -
  let ?closed = "twoBranchState\<lparr>activeFile := None\<rparr>"
  have same: "''main'' = currentBranch twoBranchState"
    by (simp add: twoBranchState_def)
  have other: "''feature'' \<noteq> currentBranch twoBranchState"
    by (simp add: twoBranchState_def)
  have present: "branchStates twoBranchState ''feature'' = Some unstagedSnapshot"
    by (simp add: twoBranchState_def)
  have root: "fileSystem unstagedSnapshot =
     Folder ''root'' ''project'' [File exampleFileA, Folder ''src'' ''src'' [File exampleFileB]]"
    by (simp add: unstagedSnapshot_def exampleTree_def)
  have opened: "activeFile twoBranchState = Some exampleFileB"
    by (simp add: twoBranchState_def)
  have ghost: "''ghost'' \<noteq> currentBranch twoBranchState"
    by (simp add: twoBranchState_def)
  have absent: "branchStates twoBranchState ''ghost'' = None"
    by (simp add: twoBranchState_def)
  note here = switchBranch_contract [of "''main''" twoBranchState]
  from here same have stay: "handleSwitchBranch ''main'' twoBranchState = Inr twoBranchState"
    by blast
  have lookup: "findFileInTree (fileSystem unstagedSnapshot) (file_id exampleFileB) = Some exampleFileB"
    by (simp add: example_defs)
  note there = switchBranch_contract [of "''feature''" twoBranchState unstagedSnapshot
      "''root''" "''project''" "[File exampleFileA, Folder ''src'' ''src'' [File exampleFileB]]"]
  from there other present root have
    "handleSwitchBranch ''feature'' twoBranchState =
       Inr (twoBranchState\<lparr>currentBranch := ''feature'',
              activeFile :=
                (case (case activeFile twoBranchState of
                         Some active \<Rightarrow> findFileInTree (fileSystem unstagedSnapshot) (file_id active)
                       | None \<Rightarrow> findFileInTree (fileSystem unstagedSnapshot) ''user-service-ts'') of
                   Some found \<Rightarrow> Some found
                 | None \<Rightarrow> childrenFindFile
                            [File exampleFileA, Folder ''src'' ''src'' [File exampleFileB]])\<rparr>)"
    by blast
  then have move: "handleSwitchBranch ''feature'' twoBranchState =
     Inr (twoBranchState\<lparr>currentBranch := ''feature'', activeFile := Some exampleFileB\<rparr>)"
    by (simp add: opened lookup)
  have other': "''feature'' \<noteq> currentBranch ?closed"
    by (simp add: twoBranchState_def)
  have present': "branchStates ?closed ''feature'' = Some unstagedSnapshot"
    by (simp add: twoBranchState_def)
  have default: "findFileInTree (fileSystem unstagedSnapshot) ''user-service-ts'' = None"
    by (simp add: example_defs)
  note fallback = switchBranch_contract [of "''feature''" ?closed unstagedSnapshot
      "''root''" "''project''" "[File exampleFileA, Folder ''src'' ''src'' [File exampleFileB]]"]
  from fallback other' present' root have
    "handleSwitchBranch ''feature'' ?closed =
       Inr (?closed\<lparr>currentBranch := ''feature'',
              activeFile :=
                (case (case activeFile ?closed of
                         Some active \<Rightarrow> findFileInTree (fileSystem unstagedSnapshot) (file_id active)
                       | None \<Rightarrow> findFileInTree (fileSystem unstagedSnapshot) ''user-service-ts'') of
                   Some found \<Rightarrow> Some found
                 | None \<Rightarrow> childrenFindFile
                            [File exampleFileA, Folder ''src'' ''src'' [File exampleFileB]])\<rparr>)"
    by blast
  then have first: "handleSwitchBranch ''feature'' ?closed =
     Inr (twoBranchState\<lparr>currentBranch := ''feature'', activeFile := Some exampleFileA\<rparr>)"
    by (simp add: default)
  note nowhere = switchBranch_contract [of "''ghost''" twoBranchState]
  from nowhere ghost absent have thrown: "handleSwitchBranch ''ghost'' twoBranchState = Inl TypeError"
    by blast
  from same stay other present root opened move first ghost absent thrown
  show ?thesis
    by (intro conjI)
qed

text \<open>
  The claim as stated fails: \<open>ghost\<close> is not a key of the store and is not the current
  branch, and the handler throws instead of returning the state unchanged.
\<close>

theorem switchBranch_unknown_name_counterexample:
  "''ghost'' \<noteq> currentBranch exampleState \<and>
   branchStates exampleState ''ghost'' = None \<and>
   handleSwitchBranch ''ghost'' exampleState = Inl TypeError \<and>
   handleSwitchBranch ''ghost'' exampleState \<noteq> Inr exampleState"
  by (simp add: handleSwitchBranch_def exampleState_def)

lemma createBranch_invalid:
  "handleCreateBranch None s = Inr (Some ''Invalid branch name.'', s)"
  "handleCreateBranch (Some []) s = Inr (Some ''Invalid branch name.'', s)"
  by (simp_all add: handleCreateBranch_def)

lemma createBranch_existing:
  assumes "newBranchName \<noteq> []" and "branchStates s newBranchName = Some existing"
  shows "handleCreateBranch (Some newBranchName) s = Inr (Some ''Branch already exists.'', s)"
  using assms by (simp add: handleCreateBranch_def propertyIsTruthy_def)

lemma createBranch_forks:
  assumes "newBranchName \<noteq> []" and "\<not> propertyIsTruthy (branchStates s) newBranchName"
    and "branchStates s (currentBranch s) = Some b"
  shows "handleCreateBranch (Some newBranchName) s =
           Inr (None, s\<lparr> branchStates := (branchStates s)(newBranchName \<mapsto> b),
                          currentBranch := newBranchName \<rparr>)"
  using assms by (simp add: handleCreateBranch_def)

text \<open>
  C3 (createBranch) at the name \<open>constructor\<close>: the name is not empty and no branch of
  the store has it, yet the handler answers \<open>Branch already exists.\<close> and adds nothing,
  because \<open>branchStates[newBranchName]\<close> finds \<open>Object.prototype.constructor\<close>. For every
  other kind of name the handler does what the claim says (\<open>createBranch_invalid\<close>,
  \<open>createBranch_existing\<close>, \<open>createBranch_forks\<close>).
\<close>

theorem createBranch_inherited_name:
  "''constructor'' \<noteq> [] \<and> branchStates exampleState ''constructor'' = None \<and>
   handleCreateBranch (Some ''constructor'') exampleState =
     Inr (Some ''Branch already exists.'', exampleState)"
  by (simp add: handleCreateBranch_def propertyIsTruthy_def objectPrototypeProperties_def
        exampleState_def)

lemma isFolder_updateFile: "isFolder (updateFileInTree t fileId updates) = isFolder t"
  by (cases t) auto

lemma isFolder_updateStatuses: "isFolder (updateStatusesInTree t fileIds st) = isFolder t"
  by (cases t) auto

lemma found_in_allFiles:
  "findFileInTree t fileId = Some found \<Longrightarrow> found \<in> set (allFiles t)"
  "findFileInChildren cs fileId = Some found \<Longrightarrow> \<exists>c \<in> set cs. found \<in> set (allFiles c)"
  by (induction t fileId and cs fileId rule: findFileInTree_findFileInChildren.induct)
     (auto split: if_splits option.splits)

lemma childrenFindFile_in_allFiles:
  "childrenFindFile cs = Some found \<Longrightarrow> found \<in> set (allFiles (Folder i n cs))"
  by (induction cs rule: childrenFindFile.induct) auto

text \<open>
  An operation that goes through \<open>setCurrentBranchState\<close> succeeds on a state whose
  current branch is in the store with a folder as root, keeps both facts, keeps the
  current branch and reads or writes no other entry of the store.
\<close>

lemma snapshotOperation_local:
  assumes "snapshotOperation op" and "branchStates s (currentBranch s) = Some b"
    and "isFolder (fileSystem b)"
  shows "\<exists>s' b'. perform op s = Inr s' \<and> currentBranch s' = currentBranch s \<and>
                  branchStates s' (currentBranch s) = Some b' \<and> isFolder (fileSystem b') \<and>
                  (\<forall>n. n \<noteq> currentBranch s \<longrightarrow> branchStates s' n = branchStates s n)"
proof (cases op)
  case (Stage fileId)
  with assms show ?thesis
    by (simp add: handleStage_def setCurrentBranchState_def)
next
  case (Unstage fileId)
  with assms show ?thesis
    by (simp add: handleUnstage_def setCurrentBranchState_def)
next
  case StageAll
  with assms show ?thesis
    by (simp add: handleStageAll_def setCurrentBranchState_def)
next
  case (Commit now isoString msg)
  with assms show ?thesis
    by (simp add: handleCommit_def setCurrentBranchState_def isFolder_updateStatuses)
next
  case (CreateBranch prompted)
  with assms show ?thesis by simp
next
  case (SwitchBranch branchName)
  with assms show ?thesis by simp
next
  case (Edit val)
  with assms show ?thesis
    by (auto simp: handleCodeChange_def setCurrentBranchState_def isFolder_updateFile Let_def
             split: option.splits)
next
  case (CreateFile now filename languagePrompt)
  from assms(3) obtain i n children where "fileSystem b = Folder i n children"
    by (cases "fileSystem b") auto
  with CreateFile assms show ?thesis
    by (auto simp: handleCreateFile_def Let_def split: option.splits)
qed

lemma performAll_local:
  assumes "\<forall>op \<in> set ops. snapshotOperation op"
    and "branchStates s (currentBranch s) = Some b" and "isFolder (fileSystem b)"
  shows "\<exists>s' b'. performAll ops s = Inr s' \<and> currentBranch s' = currentBranch s \<and>
                  branchStates s' (currentBranch s) = Some b' \<and> isFolder (fileSystem b') \<and>
                  (\<forall>n. n \<noteq> currentBranch s \<longrightarrow> branchStates s' n = branchStates s n)"
  using assms
proof (induction ops arbitrary: s b)
  case Nil
  then show ?case by simp
next
  case (Cons op ops)
  from Cons.prems have "snapshotOperation op" by simp
  from snapshotOperation_local [OF this Cons.prems(2,3)]
  obtain s1 b1 where step: "perform op s = Inr s1" "currentBranch s1 = currentBranch s"
    "branchStates s1 (currentBranch s) = Some b1" "isFolder (fileSystem b1)"
    "\<forall>n. n \<noteq> currentBranch s \<longrightarrow> branchStates s1 n = branchStates s n"
    by blast
  from Cons.prems have rest: "\<forall>op \<in> set ops. snapshotOperation op" by simp
  from step have cur1: "branchStates s1 (currentBranch s1) = Some b1" by simp
  from Cons.IH [OF rest cur1 step(4)]
  obtain s' b' where tail: "performAll ops s1 = Inr s'" "currentBranch s' = currentBranch s1"
    "branchStates s' (currentBranch s1) = Some b'" "isFolder (fileSystem b')"
    "\<forall>n. n \<noteq> currentBranch s1 \<longrightarrow> branchStates s' n = branchStates s1 n"
    by blast
  show ?case
    apply (rule exI [of _ s'])
    apply (rule exI [of _ b'])
    using step tail by simp
qed

lemma switchBranch_shows_target:
  assumes "branchName \<noteq> currentBranch s" and "branchStates s branchName = Some nb"
    and "isFolder (fileSystem nb)"
  shows "\<exists>active. handleSwitchBranch branchName s =
           Inr (s\<lparr>currentBranch := branchName, activeFile := active\<rparr>) \<and>
           (\<forall>f. active = Some f \<longrightarrow> f \<in> set (allFiles (fileSystem nb)))"
proof -
  from assms(3) obtain i n children where root: "fileSystem nb = Folder i n children"
    by (cases "fileSystem nb") auto
  define resolved where
    "resolved = (case activeFile s of
                   Some active \<Rightarrow> findFileInTree (fileSystem nb) (file_id active)
                 | None \<Rightarrow> findFileInTree (fileSystem nb) ''user-service-ts'')"
  have run: "handleSwitchBranch branchName s =
               (case resolved of
                  Some found \<Rightarrow> Inr (s\<lparr>currentBranch := branchName, activeFile := Some found\<rparr>)
                | None \<Rightarrow> Inr (s\<lparr>currentBranch := branchName,
                                 activeFile := childrenFindFile children\<rparr>))"
    using assms(1,2) root
    by (simp add: handleSwitchBranch_def Let_def resolved_def split: option.splits)
  show ?thesis
  proof (cases resolved)
    case None
    have "\<forall>f. childrenFindFile children = Some f \<longrightarrow> f \<in> set (allFiles (fileSystem nb))"
      using childrenFindFile_in_allFiles [of children _ i n] root by simp
    with None run show ?thesis by auto
  next
    case (Some found)
    then have "found \<in> set (allFiles (fileSystem nb))"
      by (auto simp: resolved_def split: option.splits dest: found_in_allFiles(1))
    with Some run show ?thesis by auto
  qed
qed

lemma edit_keeps_active_id:
  assumes "perform (Edit val) s = Inr s'"
  shows "map_option file_id (activeFile s') = map_option file_id (activeFile s)"
  using assms
  by (auto simp: handleCodeChange_def setCurrentBranchState_def Let_def spread_def
           split: option.splits)

lemma edits_keep_active_id:
  assumes "performAll (map Edit vals) s = Inr s'"
  shows "map_option file_id (activeFile s') = map_option file_id (activeFile s)"
  using assms
proof (induction vals arbitrary: s)
  case Nil
  then show ?case by simp
next
  case (Cons v vals)
  then obtain s1 where first: "perform (Edit v) s = Inr s1" and rest: "performAll (map Edit vals) s1 = Inr s'"
    by (auto split: sum.splits)
  from Cons.IH [OF rest] edit_keeps_active_id [OF first] show ?case by simp
qed

lemma switchBranch_resolves:
  assumes "branchName \<noteq> currentBranch s" and "branchStates s branchName = Some nb"
    and "activeFile s = Some active"
    and "findFileInTree (fileSystem nb) (file_id active) = Some found"
  shows "handleSwitchBranch branchName s =
           Inr (s\<lparr>currentBranch := branchName, activeFile := Some found\<rparr>)"
  using assms by (simp add: handleSwitchBranch_def)

text \<open>
  C4 (branch isolation). From a state whose current branch (the parent) is in the store,
  creating a new branch succeeds and makes it current; any sequence of edits and other
  snapshot operations (stage, unstage, stageAll, commit, create-file) then runs on the
  new branch; switching back to the parent succeeds, and the parent's snapshot is the one
  it had before the fork: same tree, hence every file with its content and status of
  before the edits, same staged set, same commit log. The file the editor then shows is
  taken from that tree; when the operations on the new branch were edits only, it is the
  parent's version of the file that was open.
\<close>

theorem branch_isolation:
  assumes "branchStates s (currentBranch s) = Some b" and "isFolder (fileSystem b)"
    and "newBranch \<noteq> []" and "\<not> propertyIsTruthy (branchStates s) newBranch"
    and "\<forall>op \<in> set edits. snapshotOperation op"
  shows "\<exists>s1 s2 s3.
           handleCreateBranch (Some newBranch) s = Inr (None, s1) \<and>
           currentBranch s1 = newBranch \<and>
           performAll edits s1 = Inr s2 \<and>
           handleSwitchBranch (currentBranch s) s2 = Inr s3 \<and>
           currentBranch s3 = currentBranch s \<and>
           branchStates s3 (currentBranch s) = Some b \<and>
           (\<forall>f. activeFile s3 = Some f \<longrightarrow> f \<in> set (allFiles (fileSystem b))) \<and>
           ((\<exists>vals. edits = map Edit vals) \<longrightarrow>
              (\<forall>active found.
                 activeFile s = Some active \<and>
                 findFileInTree (fileSystem b) (file_id active) = Some found \<longrightarrow>
                 activeFile s3 = Some found))"
proof -
  let ?s1 = "s\<lparr> branchStates := (branchStates s)(newBranch \<mapsto> b), currentBranch := newBranch \<rparr>"
  have fork: "handleCreateBranch (Some newBranch) s = Inr (None, ?s1)"
    by (rule createBranch_forks [OF assms(3,4,1)])
  from assms(1,4) have other: "newBranch \<noteq> currentBranch s"
    by (auto simp: propertyIsTruthy_def)
  have cur1: "branchStates ?s1 (currentBranch ?s1) = Some b"
    by simp
  from performAll_local [OF assms(5) cur1 assms(2)]
  obtain s2 where ran: "performAll edits ?s1 = Inr s2" "currentBranch s2 = newBranch"
    "\<forall>n. n \<noteq> newBranch \<longrightarrow> branchStates s2 n = branchStates ?s1 n"
    by auto
  from ran(3) other assms(1) have parent: "branchStates s2 (currentBranch s) = Some b"
    by simp
  from other ran(2) have away: "currentBranch s \<noteq> currentBranch s2"
    by simp
  from switchBranch_shows_target [OF away parent assms(2)]
  obtain shown where switched:
    "handleSwitchBranch (currentBranch s) s2 =
       Inr (s2\<lparr>currentBranch := currentBranch s, activeFile := shown\<rparr>)"
    "\<forall>f. shown = Some f \<longrightarrow> f \<in> set (allFiles (fileSystem b))"
    by blast
  have same_file: "shown = Some found"
    if "edits = map Edit vals" and "activeFile s = Some active"
      and "findFileInTree (fileSystem b) (file_id active) = Some found"
    for vals active found
  proof -
    from ran(1) that(1) have "map_option file_id (activeFile s2) = map_option file_id (activeFile ?s1)"
      by (simp add: edits_keep_active_id)
    with that(2) obtain active2 where a2: "activeFile s2 = Some active2"
      "file_id active2 = file_id active"
      by auto
    from that(3) a2(2) have "findFileInTree (fileSystem b) (file_id active2) = Some found"
      by simp
    from switchBranch_resolves [OF away parent a2(1) this] switched(1)
    have "s2\<lparr>currentBranch := currentBranch s, activeFile := shown\<rparr> =
          s2\<lparr>currentBranch := currentBranch s, activeFile := Some found\<rparr>"
      by simp
    then have "activeFile (s2\<lparr>currentBranch := currentBranch s, activeFile := shown\<rparr>) =
               activeFile (s2\<lparr>currentBranch := currentBranch s, activeFile := Some found\<rparr>)"
      by (rule arg_cong)
    then show ?thesis by simp
  qed
  show ?thesis
    apply (rule exI [of _ ?s1])
    apply (rule exI [of _ s2])
    apply (rule exI [of _ "s2\<lparr>currentBranch := currentBranch s, activeFile := shown\<rparr>"])
    using fork ran(1,2) switched parent same_file by auto
qed

theorem branch_isolation_witness:
  "branchStates exampleState (currentBranch exampleState) = Some exampleSnapshot \<and>
   isFolder (fileSystem exampleSnapshot) \<and> ''b2'' \<noteq> [] \<and>
   \<not> propertyIsTruthy (branchStates exampleState) ''b2'' \<and>
   snapshotOperation (Edit (Some ''let a = 2'')) \<and>
   [Edit (Some ''let a = 2'')] = map Edit [Some ''let a = 2''] \<and>
   activeFile exampleState = Some exampleFileA \<and>
   findFileInTree (fileSystem exampleSnapshot) (file_id exampleFileA) = Some exampleFileA \<and>
   (\<exists>s1 s2 s3.
      handleCreateBranch (Some ''b2'') exampleState = Inr (None, s1) \<and>
      currentBranch s1 = ''b2'' \<and>
      performAll [Edit (Some ''let a = 2'')] s1 = Inr s2 \<and>
      handleSwitchBranch (currentBranch exampleState) s2 = Inr s3 \<and>
      currentBranch s3 = currentBranch exampleState \<and>
      branchStates s3 (currentBranch exampleState) = Some exampleSnapshot \<and>
      activeFile s3 = Some exampleFileA)"
proof -
  have current: "branchStates exampleState (currentBranch exampleState) = Some exampleSnapshot"
    by (simp add: exampleState_def)
  have root: "isFolder (fileSystem exampleSnapshot)"
    by (simp add: exampleSnapshot_def exampleTree_def)
  have named: "''b2'' \<noteq> []"
    by simp
  have free: "\<not> propertyIsTruthy (branchStates exampleState) ''b2''"
    by (simp add: propertyIsTruthy_def objectPrototypeProperties_def exampleState_def)
  have edit: "snapshotOperation (Edit (Some ''let a = 2''))"
    by simp
  have local: "\<forall>op \<in> set [Edit (Some ''let a = 2'')]. snapshotOperation op"
    using edit by simp
  have edits: "[Edit (Some ''let a = 2'')] = map Edit [Some ''let a = 2'']"
    by simp
  have active: "activeFile exampleState = Some exampleFileA"
    by (simp add: exampleState_def)
  have found: "findFileInTree (fileSystem exampleSnapshot) (file_id exampleFileA) = Some exampleFileA"
    by (simp add: example_defs)
  from branch_isolation [OF current root named free local]
  obtain s1 s2 s3 where run:
    "handleCreateBranch (Some ''b2'') exampleState = Inr (None, s1)"
    "currentBranch s1 = ''b2''"
    "performAll [Edit (Some ''let a = 2'')] s1 = Inr s2"
    "handleSwitchBranch (currentBranch exampleState) s2 = Inr s3"
    "currentBranch s3 = currentBranch exampleState"
    "branchStates s3 (currentBranch exampleState) = Some exampleSnapshot"
    and same: "(\<exists>vals. [Edit (Some ''let a = 2'')] = map Edit vals) \<longrightarrow>
                 (\<forall>active found.
                    activeFile exampleState = Some active \<and>
                    findFileInTree (fileSystem exampleSnapshot) (file_id active) = Some found \<longrightarrow>
                    activeFile s3 = Some found)"
    by blast
  from edits have "\<exists>vals. [Edit (Some ''let a = 2'')] = map Edit vals"
    by (rule exI)
  with same active found have shown: "activeFile s3 = Some exampleFileA"
    by blast
  have "\<exists>s1 s2 s3.
      handleCreateBranch (Some ''b2'') exampleState = Inr (None, s1) \<and>
      currentBranch s1 = ''b2'' \<and>
      performAll [Edit (Some ''let a = 2'')] s1 = Inr s2 \<and>
      handleSwitchBranch (currentBranch exampleState) s2 = Inr s3 \<and>
      currentBranch s3 = currentBranch exampleState \<and>
      branchStates s3 (currentBranch exampleState) = Some exampleSnapshot \<and>
      activeFile s3 = Some exampleFileA"
    using run shown by blast
  with current root named free edit edits active found show ?thesis
    by blast
qed

section \<open>The staged-set invariant\<close>

lemma found_has_id:
  "findFileInTree t fileId = Some found \<Longrightarrow> file_id found = fileId"
  "findFileInChildren cs fileId = Some found \<Longrightarrow> file_id found = fileId"
  by (induction t fileId and cs fileId rule: findFileInTree_findFileInChildren.induct)
     (auto split: if_splits option.splits)

lemma find_unique:
  "distinct (map file_id (allFiles t)) \<Longrightarrow> f \<in> set (allFiles t) \<Longrightarrow>
     file_id f = fileId \<Longrightarrow> findFileInTree t fileId = Some f"
  "distinct (map file_id (concat (map allFiles cs))) \<Longrightarrow>
     f \<in> set (concat (map allFiles cs)) \<Longrightarrow>
     file_id f = fileId \<Longrightarrow> findFileInChildren cs fileId = Some f"
proof (induction t fileId and cs fileId rule: findFileInTree_findFileInChildren.induct)
  case (1 item fileId)
  then show ?case by simp
next
  case (2 i n children fileId)
  then show ?case by simp
next
  case (3 fileId)
  then show ?case by simp
next
  case (4 child rest fileId)
  from "4.prems"(1) have dchild: "distinct (map file_id (allFiles child))"
    and drest: "distinct (map file_id (concat (map allFiles rest)))"
    and apart: "file_id ` set (allFiles child) \<inter> file_id ` set (concat (map allFiles rest)) = {}"
    by auto
  show ?case
  proof (cases "f \<in> set (allFiles child)")
    case True
    from "4.IH"(1) [OF dchild True "4.prems"(3)] show ?thesis by simp
  next
    case False
    with "4.prems"(2) have inrest: "f \<in> set (concat (map allFiles rest))" by auto
    have miss: "findFileInTree child fileId = None"
    proof (cases "findFileInTree child fileId")
      case None
      then show ?thesis .
    next
      case (Some g)
      then have "g \<in> set (allFiles child)" "file_id g = fileId"
        by (auto dest: found_in_allFiles(1) found_has_id(1))
      with inrest "4.prems"(3) apart show ?thesis by blast
    qed
    from "4.IH"(2) [OF miss drest inrest "4.prems"(3)] miss show ?thesis by simp
  qed
qed

lemma findChangedFiles_filter:
  "findChangedFiles t acc = acc @ filter (\<lambda>f. gitStatus f \<noteq> Unmodified) (allFiles t)"
proof (induction t arbitrary: acc)
  case (File item)
  show ?case by simp
next
  case (Folder i n children)
  have "fold (\<lambda>child acc. findChangedFiles child acc) cs acc =
          acc @ filter (\<lambda>f. gitStatus f \<noteq> Unmodified) (concat (map allFiles cs))"
    if "set cs \<subseteq> set children" for cs acc
    using that
  proof (induction cs arbitrary: acc)
    case Nil
    show ?case by simp
  next
    case (Cons c cs)
    then have "c \<in> set children" by simp
    from Folder [OF this] Cons show ?case by simp
  qed
  then show ?case by simp
qed

lemma find_after_update:
  assumes "id_upd updates = None"
  shows "findFileInTree (updateFileInTree t target updates) fileId =
           map_option (\<lambda>f. if file_id f = target then spread f updates else f)
             (findFileInTree t fileId)"
    and "findFileInChildren (map (\<lambda>child. updateFileInTree child target updates) cs) fileId =
           map_option (\<lambda>f. if file_id f = target then spread f updates else f)
             (findFileInChildren cs fileId)"
  using assms
  by (induction t fileId and cs fileId rule: findFileInTree_findFileInChildren.induct)
     (auto simp: spread_def split: option.splits)

lemma find_in_appended:
  "findFileInChildren (cs @ [extra]) fileId =
     (case findFileInChildren cs fileId of
        Some found \<Rightarrow> Some found
      | None \<Rightarrow> findFileInTree extra fileId)"
  by (induction cs) (auto split: option.splits)

lemma ran_upd_cases: "x \<in> ran (m(k \<mapsto> v)) \<Longrightarrow> x = v \<or> x \<in> ran m"
  by (auto simp: ran_def split: if_splits)

lemma store_write:
  assumes "renderable s" and "storeInvariant s"
    and "isFolder (fileSystem b')" and "stagedResolve b'"
  shows "renderable (s\<lparr>branchStates := (branchStates s)(k \<mapsto> b'), currentBranch := k\<rparr>)"
    and "storeInvariant (s\<lparr>branchStates := (branchStates s)(k \<mapsto> b'), currentBranch := k\<rparr>)"
  using assms by (auto simp: renderable_def storeInvariant_def dest!: ran_upd_cases)

lemma current_write:
  assumes "renderable s" and "storeInvariant s"
    and "isFolder (fileSystem b')" and "stagedResolve b'"
  shows "renderable (s\<lparr>branchStates := (branchStates s)(currentBranch s \<mapsto> b')\<rparr>)"
    and "storeInvariant (s\<lparr>branchStates := (branchStates s)(currentBranch s \<mapsto> b')\<rparr>)"
  using store_write [OF assms, of "currentBranch s"] by simp_all

lemma activeFile_irrelevant:
  "renderable (s\<lparr>activeFile := a\<rparr>) = renderable s"
  "storeInvariant (s\<lparr>activeFile := a\<rparr>) = storeInvariant s"
  by (simp_all add: renderable_def storeInvariant_def)

lemma currentBranch_switch:
  assumes "renderable s" and "storeInvariant s" and "branchStates s k \<noteq> None"
  shows "renderable (s\<lparr>currentBranch := k, activeFile := a\<rparr>)"
    and "storeInvariant (s\<lparr>currentBranch := k, activeFile := a\<rparr>)"
  using assms by (auto simp: renderable_def storeInvariant_def)

lemma renderable_current:
  assumes "renderable s" and "storeInvariant s"
  obtains b where "branchStates s (currentBranch s) = Some b"
    and "isFolder (fileSystem b)" and "stagedResolve b"
  using assms by (auto simp: renderable_def storeInvariant_def ran_def)

lemma stagedResolve_stage:
  assumes "stagedResolve b" and "findFileInTree (fileSystem b) fileId = Some found"
    and "gitStatus found \<noteq> Unmodified"
  shows "stagedResolve (b\<lparr>stagedFiles := insert fileId (stagedFiles b)\<rparr>)"
  using assms by (simp add: stagedResolve_def)

lemma stagedResolve_unstage:
  assumes "stagedResolve b"
  shows "stagedResolve (b\<lparr>stagedFiles := stagedFiles b - {fileId}\<rparr>)"
  using assms by (simp add: stagedResolve_def)

lemma stagedResolve_stageAll:
  assumes "distinct (map file_id (allFiles (fileSystem b)))"
  shows "stagedResolve (b\<lparr>stagedFiles := set (map file_id (findChangedFiles (fileSystem b) []))\<rparr>)"
  using assms
  by (auto simp: stagedResolve_def findChangedFiles_filter find_unique(1))

lemma stagedResolve_commit:
  "stagedResolve (b\<lparr>commits := cs, fileSystem := t, stagedFiles := {}\<rparr>)"
  by (simp add: stagedResolve_def)

lemma stagedResolve_edit:
  assumes "stagedResolve b" and "id_upd updates = None"
    and "gitStatus_upd updates \<noteq> Some Unmodified"
  shows "stagedResolve (b\<lparr>fileSystem := updateFileInTree (fileSystem b) target updates\<rparr>)"
proof -
  have "gitStatus (spread f updates) \<noteq> Unmodified" if "gitStatus f \<noteq> Unmodified" for f
    using that assms(3) by (cases "gitStatus_upd updates") (auto simp: spread_def)
  with assms(1) show ?thesis
    by (auto simp: stagedResolve_def find_after_update(1) [OF assms(2)] split: option.splits)
qed

lemma stagedResolve_createFile:
  assumes "stagedResolve b" and "fileSystem b = Folder i n children"
  shows "stagedResolve (b\<lparr>fileSystem := Folder i n (children @ [File newFile])\<rparr>)"
  using assms
  by (auto simp: stagedResolve_def find_in_appended split: option.splits)

lemma invariant_step:
  assumes "renderable s" and "storeInvariant s" and "admissible op s"
  shows "\<exists>s'. perform op s = Inr s' \<and> renderable s' \<and> storeInvariant s'"
proof -
  from assms(1,2) obtain b where cur: "branchStates s (currentBranch s) = Some b"
    and root: "isFolder (fileSystem b)" and inv: "stagedResolve b"
    by (rule renderable_current)
  show ?thesis
  proof (cases op)
    case (Stage fileId)
    with assms(3) cur obtain found where "findFileInTree (fileSystem b) fileId = Some found"
      "gitStatus found \<noteq> Unmodified"
      by (auto split: option.splits)
    from stagedResolve_stage [OF inv this] root Stage cur show ?thesis
      using current_write [OF assms(1,2), of "b\<lparr>stagedFiles := insert fileId (stagedFiles b)\<rparr>"]
      by (simp add: handleStage_def setCurrentBranchState_def)
  next
    case (Unstage fileId)
    from stagedResolve_unstage [OF inv, of fileId] root Unstage cur show ?thesis
      using current_write [OF assms(1,2), of "b\<lparr>stagedFiles := stagedFiles b - {fileId}\<rparr>"]
      by (simp add: handleUnstage_def setCurrentBranchState_def)
  next
    case StageAll
    with assms(3) cur have "distinct (map file_id (allFiles (fileSystem b)))" by simp
    from stagedResolve_stageAll [OF this] root StageAll cur show ?thesis
      using current_write [OF assms(1,2),
          of "b\<lparr>stagedFiles := set (map file_id (findChangedFiles (fileSystem b) []))\<rparr>"]
      by (simp add: handleStageAll_def setCurrentBranchState_def)
  next
    case (Commit now isoString msg)
    show ?thesis
    proof (cases "stagedFiles b = {}")
      case True
      with Commit cur assms(1,2) show ?thesis
        by (simp add: handleCommit_def)
    next
      case False
      let ?b' = "b\<lparr> commits := \<lparr> commit_id = ''commit-'' @ showNat now, message = msg,
                                    timestamp = isoString \<rparr> # commits b,
                     fileSystem := updateStatusesInTree (fileSystem b) (stagedFiles b) Unmodified,
                     stagedFiles := {} \<rparr>"
      have "stagedResolve ?b'" by (rule stagedResolve_commit)
      moreover have "isFolder (fileSystem ?b')" using root by (simp add: isFolder_updateStatuses)
      ultimately show ?thesis
        using current_write [OF assms(1,2), of ?b'] Commit False cur
        by (simp add: handleCommit_def setCurrentBranchState_def)
    qed
  next
    case (CreateBranch prompted)
    show ?thesis
    proof (cases "prompted = None \<or> prompted = Some [] \<or>
                  (\<exists>n. prompted = Some n \<and> propertyIsTruthy (branchStates s) n)")
      case True
      with CreateBranch assms(1,2) show ?thesis
        by (auto simp: handleCreateBranch_def)
    next
      case False
      then obtain n where "prompted = Some n" "n \<noteq> []" "\<not> propertyIsTruthy (branchStates s) n"
        by (cases prompted) auto
      with CreateBranch cur show ?thesis
        using store_write [OF assms(1,2) root inv, of n]
        by (simp add: handleCreateBranch_def)
    qed
  next
    case (SwitchBranch branchName)
    show ?thesis
    proof (cases "branchName = currentBranch s")
      case True
      with SwitchBranch assms(1,2) show ?thesis
        by (simp add: handleSwitchBranch_def)
    next
      case False
      from SwitchBranch assms(3) obtain nb where nb: "branchStates s branchName = Some nb"
        by auto
      with assms(1) have "isFolder (fileSystem nb)"
        by (auto simp: renderable_def ran_def)
      from switchBranch_existing [OF False nb this] obtain active where
        "handleSwitchBranch branchName s = Inr (s\<lparr>currentBranch := branchName, activeFile := active\<rparr>)"
        by blast
      with SwitchBranch nb show ?thesis
        using currentBranch_switch [OF assms(1,2), of branchName active] by simp
    qed
  next
    case (Edit val)
    show ?thesis
    proof (cases "val = None \<or> activeFile s = None")
      case True
      with Edit assms(1,2) show ?thesis
        by (auto simp: handleCodeChange_def split: option.splits)
    next
      case False
      then obtain v active where va: "val = Some v" "activeFile s = Some active" by auto
      define updates where
        "updates = \<lparr> id_upd = None, name_upd = None, language_upd = None,
                      content_upd = Some v,
                      gitStatus_upd = (if gitStatus active = Unmodified
                                       then Some Modified else None) \<rparr>"
      let ?b' = "b\<lparr>fileSystem := updateFileInTree (fileSystem b) (file_id active) updates\<rparr>"
      let ?s' = "s\<lparr>branchStates := (branchStates s)(currentBranch s \<mapsto> ?b')\<rparr>"
      have run: "perform op s = Inr (?s'\<lparr>activeFile := Some (spread active updates)\<rparr>)"
        using Edit va cur
        by (simp add: handleCodeChange_def setCurrentBranchState_def Let_def updates_def)
      have "stagedResolve ?b'"
        by (rule stagedResolve_edit [OF inv]) (simp_all add: updates_def)
      moreover have "isFolder (fileSystem ?b')" using root by (simp add: isFolder_updateFile)
      ultimately have "renderable ?s'" "storeInvariant ?s'"
        using current_write [OF assms(1,2), of ?b'] by simp_all
      with run show ?thesis
        by (simp add: activeFile_irrelevant)
    qed
  next
    case (CreateFile now filename languagePrompt)
    show ?thesis
    proof (cases "filename = None \<or> filename = Some []")
      case True
      with CreateFile assms(1,2) show ?thesis
        by (auto simp: handleCreateFile_def)
    next
      case False
      then obtain fname where fname: "filename = Some fname" "fname \<noteq> []" by auto
      from root obtain i n children where tree: "fileSystem b = Folder i n children"
        by (cases "fileSystem b") auto
      define newFile where
        "newFile = \<lparr> file_id = ''file-'' @ showNat now, name = trim fname,
                      language = toLowerCase (trim (case languagePrompt of
                                   None \<Rightarrow> ''plaintext''
                                 | Some l \<Rightarrow> if l = [] then ''plaintext'' else l)),
                      content = [], gitStatus = New \<rparr>"
      let ?b' = "b\<lparr>fileSystem := Folder i n (children @ [File newFile])\<rparr>"
      have "stagedResolve ?b'" by (rule stagedResolve_createFile [OF inv tree])
      moreover have "isFolder (fileSystem ?b')" by simp
      ultimately show ?thesis
        using current_write [OF assms(1,2), of ?b'] CreateFile fname cur tree
        by (simp add: handleCreateFile_def activeFile_irrelevant newFile_def Let_def)
    qed
  qed
qed

text \<open>
  C7 (staged-set invariant), as the code has it. From a renderable state in which every
  snapshot of the store satisfies the invariant, each of the eight operations succeeds
  and leads to such a state again, so that every id staged on the current branch resolves
  to a file of that branch's tree whose status is not \<open>unmodified\<close>, provided the
  operation is admissible: \<open>stage\<close> is given the id of a changed file of the current
  tree, \<open>stageAll\<close> runs on a tree with unique file ids, and \<open>switchBranch\<close> is given
  a branch of the store.
\<close>

theorem staged_invariant_preserved:
  assumes "renderable s" and "storeInvariant s" and "admissible op s"
  shows "\<exists>s' b'. perform op s = Inr s' \<and> renderable s' \<and> storeInvariant s' \<and>
                  branchStates s' (currentBranch s') = Some b' \<and>
                  (\<forall>fid \<in> stagedFiles b'.
                     \<exists>found. findFileInTree (fileSystem b') fid = Some found \<and>
                             gitStatus found \<noteq> Unmodified)"
proof -
  from invariant_step [OF assms] obtain s' where step: "perform op s = Inr s'"
    "renderable s'" "storeInvariant s'"
    by blast
  from step(2,3) obtain b' where cur: "branchStates s' (currentBranch s') = Some b'"
    and inv: "stagedResolve b'"
    by (rule renderable_current)
  from inv have "\<forall>fid \<in> stagedFiles b'.
                   \<exists>found. findFileInTree (fileSystem b') fid = Some found \<and>
                           gitStatus found \<noteq> Unmodified"
    by (auto simp: stagedResolve_def split: option.splits)
  with step cur show ?thesis by blast
qed

theorem staged_invariant_preserved_witness:
  "renderable unstagedState \<and> storeInvariant unstagedState \<and>
   admissible (Stage ''a.ts'') unstagedState \<and> admissible StageAll unstagedState \<and>
   (\<exists>s' b'. perform (Stage ''a.ts'') unstagedState = Inr s' \<and> renderable s' \<and>
             storeInvariant s' \<and> branchStates s' (currentBranch s') = Some b' \<and>
             (\<forall>fid \<in> stagedFiles b'.
                \<exists>found. findFileInTree (fileSystem b') fid = Some found \<and>
                        gitStatus found \<noteq> Unmodified)) \<and>
   (\<exists>s' b'. perform StageAll unstagedState = Inr s' \<and> renderable s' \<and>
             storeInvariant s' \<and> branchStates s' (currentBranch s') = Some b' \<and>
             (\<forall>fid \<in> stagedFiles b'.
                \<exists>found. findFileInTree (fileSystem b') fid = Some found \<and>
                        gitStatus found \<noteq> Unmodified)) \<and>
   renderable twoBranchState \<and> storeInvariant twoBranchState \<and>
   admissible (SwitchBranch ''feature'') twoBranchState \<and>
   (\<exists>s' b'. perform (SwitchBranch ''feature'') twoBranchState = Inr s' \<and> renderable s' \<and>
             storeInvariant s' \<and> branchStates s' (currentBranch s') = Some b' \<and>
             (\<forall>fid \<in> stagedFiles b'.
                \<exists>found. findFileInTree (fileSystem b') fid = Some found \<and>
                        gitStatus found \<noteq> Unmodified))"
proof -
  have r1: "renderable unstagedState"
    by (simp add: renderable_def example_defs)
  have i1: "storeInvariant unstagedState"
    by (simp add: storeInvariant_def stagedResolve_def example_defs)
  have a1: "admissible (Stage ''a.ts'') unstagedState"
    by (simp add: example_defs)
  have a2: "admissible StageAll unstagedState"
    by (simp add: example_defs)
  have r2: "renderable twoBranchState"
    by (simp add: renderable_def example_defs)
  have i2: "storeInvariant twoBranchState"
    by (simp add: storeInvariant_def stagedResolve_def example_defs)
  have a3: "admissible (SwitchBranch ''feature'') twoBranchState"
    by (simp add: example_defs)
  show ?thesis
    using r1 i1 a1 a2 r2 i2 a3
      staged_invariant_preserved [OF r1 i1 a1]
      staged_invariant_preserved [OF r1 i1 a2]
      staged_invariant_preserved [OF r2 i2 a3]
    by blast
qed

text \<open>
  The claim as stated fails for \<open>stage\<close>: from a state that satisfies the invariant,
  staging \<open>ghost.ts\<close> leaves a staged id that resolves to no file, and staging \<open>b.ts\<close>
  leaves a staged id that resolves to an \<open>unmodified\<close> file.
\<close>

theorem staged_invariant_stage_counterexample:
  "renderable unstagedState \<and> storeInvariant unstagedState \<and>
   perform (Stage ''ghost.ts'') unstagedState =
     Inr (unstagedState\<lparr>branchStates :=
            [''main'' \<mapsto> unstagedSnapshot\<lparr>stagedFiles := {''ghost.ts''}\<rparr>]\<rparr>) \<and>
   findFileInTree (fileSystem (unstagedSnapshot\<lparr>stagedFiles := {''ghost.ts''}\<rparr>)) ''ghost.ts'' = None \<and>
   perform (Stage ''b.ts'') unstagedState =
     Inr (unstagedState\<lparr>branchStates :=
            [''main'' \<mapsto> unstagedSnapshot\<lparr>stagedFiles := {''b.ts''}\<rparr>]\<rparr>) \<and>
   findFileInTree (fileSystem (unstagedSnapshot\<lparr>stagedFiles := {''b.ts''}\<rparr>)) ''b.ts'' =
     Some exampleFileB \<and>
   gitStatus exampleFileB = Unmodified \<and>
   \<not> stagedResolve (unstagedSnapshot\<lparr>stagedFiles := {''ghost.ts''}\<rparr>) \<and>
   \<not> stagedResolve (unstagedSnapshot\<lparr>stagedFiles := {''b.ts''}\<rparr>)"
proof -
  have r1: "renderable unstagedState"
    by (simp add: renderable_def example_defs)
  have i1: "storeInvariant unstagedState"
    by (simp add: storeInvariant_def stagedResolve_def example_defs)
  have current: "branchStates unstagedState (currentBranch unstagedState) = Some unstagedSnapshot"
    by (simp add: unstagedState_def)
  have ghost: "perform (Stage ''ghost.ts'') unstagedState =
     Inr (unstagedState\<lparr>branchStates :=
            [''main'' \<mapsto> unstagedSnapshot\<lparr>stagedFiles := {''ghost.ts''}\<rparr>]\<rparr>)"
    by (simp add: stage_run [OF current]) (simp add: unstagedState_def unstagedSnapshot_def)
  have ghost_miss:
    "findFileInTree (fileSystem (unstagedSnapshot\<lparr>stagedFiles := {''ghost.ts''}\<rparr>)) ''ghost.ts'' = None"
    by (simp add: example_defs)
  have clean: "perform (Stage ''b.ts'') unstagedState =
     Inr (unstagedState\<lparr>branchStates :=
            [''main'' \<mapsto> unstagedSnapshot\<lparr>stagedFiles := {''b.ts''}\<rparr>]\<rparr>)"
    by (simp add: stage_run [OF current]) (simp add: unstagedState_def unstagedSnapshot_def)
  have clean_hit:
    "findFileInTree (fileSystem (unstagedSnapshot\<lparr>stagedFiles := {''b.ts''}\<rparr>)) ''b.ts'' =
       Some exampleFileB"
    by (simp add: example_defs)
  have clean_status: "gitStatus exampleFileB = Unmodified"
    by (simp add: exampleFileB_def)
  have ghost_broken: "\<not> stagedResolve (unstagedSnapshot\<lparr>stagedFiles := {''ghost.ts''}\<rparr>)"
    using ghost_miss by (simp add: stagedResolve_def)
  have clean_broken: "\<not> stagedResolve (unstagedSnapshot\<lparr>stagedFiles := {''b.ts''}\<rparr>)"
    using clean_hit clean_status by (simp add: stagedResolve_def)
  show ?thesis
    using r1 i1 ghost ghost_miss clean clean_hit clean_status ghost_broken clean_broken
    by blast
qed

end
